(* ===== verification/Prelude.thy ===== *)
theory Prelude
  imports Complex_Main
begin

text \<open>
  Shared vocabulary of the development: the JavaScript values and built-in string
  operations that the page script \<^verbatim>\<open>src/src/js/main.js\<close> relies on, the error values of
  its exception paths, and the generic list lemmas the component theories share.
  The collections \<open>js_simps\<close> (evaluation of the built-ins on concrete strings) and
  \<open>dom_simps\<close> (the DOM store, declared in theory \<open>Dom\<close>) carry the component proofs.
\<close>

named_theorems js_simps "evaluation rules of the JavaScript built-ins"
named_theorems dom_simps "rewrite rules of the DOM store"

section \<open>JavaScript values\<close>

text \<open>
  A thrown exception that the script does not catch ends the handler: it is the
  \<open>Inl\<close> side of a result of type \<open>js_error + 'a\<close>. The only one the handlers can raise
  is the \<^verbatim>\<open>TypeError\<close> of a method call on \<^verbatim>\<open>null\<close>.
\<close>

datatype js_error = TypeError string

type_synonym 'a js_result = "js_error + 'a"

text \<open>
  \<^verbatim>\<open>s.startsWith(p)\<close>, by recursion on both strings, so that it evaluates on literals.
\<close>

fun starts_with :: "string \<Rightarrow> string \<Rightarrow> bool" where
  "starts_with s [] = True"
| "starts_with [] (c # cs) = False"
| "starts_with (x # xs) (c # cs) = (x = c \<and> starts_with xs cs)"

text \<open>A string is truthy in a condition exactly when it is not empty.\<close>

definition js_truthy :: "string \<Rightarrow> bool" where
  "js_truthy s = (s \<noteq> [])"

text \<open>\<^verbatim>\<open>s.substring(1)\<close>: everything after the first character (empty on the empty string).\<close>

definition substring1 :: "string \<Rightarrow> string" where
  "substring1 s = drop 1 s"

section \<open>Indexing a list by a predicate\<close>

text \<open>
  The position of the first element that satisfies a predicate: the shape of every DOM
  query that returns one node (\<^verbatim>\<open>getElementById\<close>, \<^verbatim>\<open>querySelector\<close>).
\<close>

fun index_where :: "('a \<Rightarrow> bool) \<Rightarrow> 'a list \<Rightarrow> nat option" where
  "index_where P [] = None"
| "index_where P (x # xs) = (if P x then Some 0 else map_option Suc (index_where P xs))"

section \<open>Lemmas on the built-ins\<close>

lemma starts_with_iff [js_simps]: "starts_with s p \<longleftrightarrow> (\<exists>r. s = p @ r)"
proof (induction s p rule: starts_with.induct)
  case (3 x xs c cs)
  then show ?case by auto
qed simp_all

lemma starts_with_append [simp]: "starts_with (p @ r) p"
  by (simp add: starts_with_iff)

lemma starts_with_refl [simp]: "starts_with s s"
  using starts_with_append [of s "[]"] by simp

lemma js_truthy_simps [simp, js_simps]:
  "js_truthy [] = False" "js_truthy (c # s) = True"
  by (simp_all add: js_truthy_def)

lemma substring1_Cons [simp, js_simps]: "substring1 (c # s) = s"
  by (simp add: substring1_def)

lemma substring1_Nil [simp, js_simps]: "substring1 [] = []"
  by (simp add: substring1_def)

section \<open>Lemmas on indexing by a predicate\<close>

lemma index_where_None [simp]: "index_where P xs = None \<longleftrightarrow> (\<forall>x \<in> set xs. \<not> P x)"
  by (induction xs) auto

lemma index_where_Some:
  "index_where P xs = Some i \<Longrightarrow> i < length xs \<and> P (xs ! i) \<and> (\<forall>j < i. \<not> P (xs ! j))"
proof (induction xs arbitrary: i)
  case (Cons x xs)
  show ?case
  proof (cases "P x")
    case False
    with Cons.prems obtain k where k: "index_where P xs = Some k" and i: "i = Suc k"
      by auto
    from Cons.IH [OF k] False i show ?thesis
      by (auto simp: less_Suc_eq_0_disj)
  qed (use Cons.prems in auto)
qed simp

lemma index_where_less [dest]: "index_where P xs = Some i \<Longrightarrow> i < length xs"
  by (drule index_where_Some) simp

lemma index_where_holds [dest]: "index_where P xs = Some i \<Longrightarrow> P (xs ! i)"
  by (drule index_where_Some) simp

lemma index_where_Some_iff:
  "index_where P xs = Some i \<longleftrightarrow> i < length xs \<and> P (xs ! i) \<and> (\<forall>j < i. \<not> P (xs ! j))"
proof
  assume "i < length xs \<and> P (xs ! i) \<and> (\<forall>j < i. \<not> P (xs ! j))"
  then show "index_where P xs = Some i"
  proof (induction xs arbitrary: i)
    case (Cons x xs)
    then show ?case by (cases i) (auto, fastforce)
  qed simp
qed (rule index_where_Some)

end
