(* ===== verification/Language.thy ===== *)
theory Language
  imports Prelude
begin

text \<open>
  The Language Router of \<^verbatim>\<open>src/src/js/main.js\<close>: \<^verbatim>\<open>getCurrentLanguage\<close> (lines 5--8),
  \<^verbatim>\<open>switchLanguage\<close> (lines 10--27) and the click handler installed on every
  \<^verbatim>\<open>.language-switcher\<close> element (lines 34--47). The window's location is a record of
  the two parts the script reads; a navigation (\<^verbatim>\<open>window.location.href = url\<close>) is the
  URL the handler returns. How the browser turns that URL back into a location is the
  environment function \<open>url_location\<close>, modelled from the URL standard for the
  absolute-path URLs the script builds.
\<close>

section \<open>The location\<close>

record location =
  pathname :: string
  hash :: string

text \<open>
  \<^verbatim>\<open>location.hash\<close> is empty or \<^verbatim>\<open>#\<close> followed by a non-empty fragment (a URL that
  ends in a bare \<^verbatim>\<open>#\<close> has an empty \<^verbatim>\<open>hash\<close>).
\<close>

fun hash_wf :: "string \<Rightarrow> bool" where
  "hash_wf [] = True"
| "hash_wf (c # f) = (c = CHR ''#'' \<and> f \<noteq> [])"

text \<open>
  The location the browser shows after navigating to an absolute-path URL: the path
  runs up to the first \<^verbatim>\<open>?\<close> or \<^verbatim>\<open>#\<close>, the fragment is everything after the first
  \<^verbatim>\<open>#\<close>. Percent-encoding and dot segments are left out: the URLs the router builds
  contain neither beyond what the current hash already holds.
\<close>

definition url_location :: "string \<Rightarrow> location" where
  "url_location u =
     (let path = takeWhile (\<lambda>c. c \<noteq> CHR ''?'' \<and> c \<noteq> CHR ''#'') u;
          frag = drop 1 (dropWhile (\<lambda>c. c \<noteq> CHR ''#'') u)
      in \<lparr>pathname = path, hash = (if frag = [] then [] else CHR ''#'' # frag)\<rparr>)"

section \<open>The router\<close>

text \<open>\<^verbatim>\<open>getCurrentLanguage()\<close>: Hebrew under \<^verbatim>\<open>/he/\<close> or at \<^verbatim>\<open>/he\<close>, English everywhere else.\<close>

definition getCurrentLanguage :: "location \<Rightarrow> string" where
  "getCurrentLanguage loc =
     (let path = pathname loc
      in if starts_with path ''/he/'' \<or> path = ''/he'' then ''he'' else ''en'')"

text \<open>
  \<^verbatim>\<open>switchLanguage(targetLang)\<close>: \<open>None\<close> for the early return, \<open>Some url\<close> for the
  assignment to \<^verbatim>\<open>window.location.href\<close>.
\<close>

definition switchLanguage :: "location \<Rightarrow> string \<Rightarrow> string option" where
  "switchLanguage loc targetLang =
     (let currentHash = hash loc;
          currentLang = getCurrentLanguage loc
      in if currentLang = targetLang then None
         else Some (if targetLang = ''he'' then ''/he/'' @ currentHash else ''/'' @ currentHash))"

text \<open>
  The click handler of a \<^verbatim>\<open>.language-switcher\<close> element, given the element's \<^verbatim>\<open>href\<close>
  attribute (\<open>None\<close> for \<^verbatim>\<open>null\<close>). It returns whether the default action was
  prevented and either the URL it navigates to or the exception it throws:
  \<^verbatim>\<open>href.startsWith\<close> on \<^verbatim>\<open>null\<close> is a \<^verbatim>\<open>TypeError\<close>, raised after
  \<^verbatim>\<open>preventDefault()\<close>. The computed \<^verbatim>\<open>targetLang\<close> is never used again.
\<close>

definition switcher_click :: "location \<Rightarrow> string option \<Rightarrow> bool \<times> string js_result" where
  "switcher_click loc hrefAttr =
     (True,
      case hrefAttr of
        None \<Rightarrow> Inl (TypeError ''startsWith'')
      | Some href \<Rightarrow>
          (let targetLang = (if starts_with href ''/he/'' \<or> href = ''/he'' then ''he'' else ''en'');
               currentHash = hash loc;
               newUrl = (if js_truthy currentHash then href @ currentHash else href)
           in Inr newUrl))"

section \<open>Lemmas\<close>

lemma getCurrentLanguage_cases: "getCurrentLanguage loc = ''he'' \<or> getCurrentLanguage loc = ''en''"
  by (simp add: getCurrentLanguage_def Let_def)

lemma url_location_prefix_hash:
  assumes "hash_wf h" and "\<forall>c \<in> set p. c \<noteq> CHR ''?'' \<and> c \<noteq> CHR ''#''"
  shows "url_location (p @ h) = \<lparr>pathname = p, hash = h\<rparr>"
proof -
  from assms(2) have take: "takeWhile (\<lambda>c. c \<noteq> CHR ''?'' \<and> c \<noteq> CHR ''#'') p = p"
    by (simp add: takeWhile_eq_all_conv)
  from assms(2) have drop: "dropWhile (\<lambda>c. c \<noteq> CHR ''#'') p = []"
    by (simp add: dropWhile_eq_Nil_conv)
  show ?thesis
  proof (cases h)
    case (Cons c f)
    with assms(1) have "c = CHR ''#''" and "f \<noteq> []" by simp_all
    with Cons take drop show ?thesis
      by (simp add: url_location_def takeWhile_append dropWhile_append)
  qed (simp add: url_location_def take drop)
qed

lemma getCurrentLanguage_he_root [simp]: "getCurrentLanguage \<lparr>pathname = ''/he/'', hash = h\<rparr> = ''he''"
  by (simp add: getCurrentLanguage_def)

lemma getCurrentLanguage_en_root [simp]: "getCurrentLanguage \<lparr>pathname = ''/'', hash = h\<rparr> = ''en''"
  by (simp add: getCurrentLanguage_def)

section \<open>Properties\<close>

text \<open>
  C7. Classification: the current language is Hebrew exactly when the path starts
  with \<^verbatim>\<open>/he/\<close> or is \<^verbatim>\<open>/he\<close>, and English otherwise; there is no third value.
\<close>

theorem getCurrentLanguage_classify:
  "(getCurrentLanguage loc = ''he'' \<longleftrightarrow> (\<exists>r. pathname loc = ''/he/'' @ r) \<or> pathname loc = ''/he'') \<and>
   (getCurrentLanguage loc = ''en'' \<longleftrightarrow> \<not> ((\<exists>r. pathname loc = ''/he/'' @ r) \<or> pathname loc = ''/he''))"
  by (simp add: getCurrentLanguage_def starts_with_iff Let_def)

text \<open>
  C8. \<^verbatim>\<open>switchLanguage\<close> returns without navigating exactly when the target is the
  current language.
\<close>

theorem switchLanguage_noop_iff:
  "switchLanguage loc targetLang = None \<longleftrightarrow> getCurrentLanguage loc = targetLang"
  by (simp add: switchLanguage_def Let_def)

text \<open>
  C9. Switching to the other supported language navigates, and the page it lands on is
  in the target language and carries the same hash.
\<close>

theorem switchLanguage_roundtrip:
  assumes "hash_wf (hash loc)"
    and "targetLang = ''en'' \<or> targetLang = ''he''"
    and "getCurrentLanguage loc \<noteq> targetLang"
  shows "\<exists>url. switchLanguage loc targetLang = Some url \<and>
           getCurrentLanguage (url_location url) = targetLang \<and>
           hash (url_location url) = hash loc"
proof -
  have he: "url_location (''/he/'' @ hash loc) = \<lparr>pathname = ''/he/'', hash = hash loc\<rparr>"
    using assms(1) by (rule url_location_prefix_hash) simp
  have en: "url_location (''/'' @ hash loc) = \<lparr>pathname = ''/'', hash = hash loc\<rparr>"
    using assms(1) by (rule url_location_prefix_hash) simp
  from assms(2,3) he en show ?thesis
    by (auto simp: switchLanguage_def Let_def)
qed

theorem switchLanguage_roundtrip_witness:
  "\<exists>url. switchLanguage \<lparr>pathname = ''/'', hash = ''#pricing''\<rparr> ''he'' = Some url \<and>
     getCurrentLanguage (url_location url) = ''he'' \<and>
     hash (url_location url) = hash \<lparr>pathname = ''/'', hash = ''#pricing''\<rparr>"
  by (rule switchLanguage_roundtrip) simp_all

text \<open>
  C10. The switcher's click handler prevents the default action and navigates to its
  own \<^verbatim>\<open>href\<close> with the current hash appended verbatim (nothing appended when the
  hash is empty).
\<close>

theorem switcher_click_preserves_hash:
  "switcher_click loc (Some href) = (True, Inr (href @ hash loc))"
  by (cases "hash loc") (simp_all add: switcher_click_def Let_def)

text \<open>
  C11. A switcher element without an \<^verbatim>\<open>href\<close> attribute makes the handler throw a
  \<^verbatim>\<open>TypeError\<close> after it has prevented the default action: no navigation happens.
\<close>

theorem switcher_click_null_href:
  "switcher_click loc None = (True, Inl (TypeError ''startsWith''))"
  by (simp add: switcher_click_def)

text \<open>
  C12. \<^verbatim>\<open>switchLanguage\<close> does not keep the page: switching to English from any Hebrew
  page goes to the site root, not to the page with its \<^verbatim>\<open>/he/\<close> prefix removed, and
  switching to Hebrew from any English page goes to the Hebrew root.
\<close>

theorem switchLanguage_drops_path:
  assumes "getCurrentLanguage \<lparr>pathname = q, hash = h\<rparr> = ''en''"
  shows "switchLanguage \<lparr>pathname = ''/he/'' @ p, hash = h\<rparr> ''en'' = Some (''/'' @ h) \<and>
    switchLanguage \<lparr>pathname = q, hash = h\<rparr> ''he'' = Some (''/he/'' @ h)"
  using assms by (simp add: switchLanguage_def getCurrentLanguage_def Let_def)

theorem switchLanguage_drops_path_witness:
  "getCurrentLanguage \<lparr>pathname = ''/about'', hash = ''''\<rparr> = ''en'' \<and>
   switchLanguage \<lparr>pathname = ''/he/about'', hash = ''''\<rparr> ''en'' = Some ''/'' \<and>
   switchLanguage \<lparr>pathname = ''/about'', hash = ''''\<rparr> ''he'' = Some ''/he/''"
proof -
  have en: "getCurrentLanguage \<lparr>pathname = ''/about'', hash = ''''\<rparr> = ''en''"
    by (simp add: getCurrentLanguage_def)
  from switchLanguage_drops_path [of "''/about''" "''''" "''about''", OF en] en show ?thesis
    by simp
qed

end
