(* ===== verification/Dom.thy ===== *)
theory Dom
  imports Prelude
begin

text \<open>
  The part of the browser's document that the page script reads and writes, as an
  explicit store. The document is a list of elements in tree order, and an element's
  identity is its position in that list: two queries that return the same position
  return the same node, which is the aliasing the handlers of \<^verbatim>\<open>main.js\<close> share.
  The DOM is the environment of the script, not code of the repository: the queries
  (\<^verbatim>\<open>getElementById\<close>, \<^verbatim>\<open>querySelector\<close>, \<^verbatim>\<open>querySelectorAll\<close>), the \<^verbatim>\<open>classList\<close> token
  list and the inline \<^verbatim>\<open>style\<close> are modelled from the DOM standard, only as far as the
  script uses them.
\<close>

section \<open>Elements and the document\<close>

text \<open>The inline style properties the script writes.\<close>

record style =
  opacity :: string
  transform :: string
  transition :: string
  display :: string

text \<open>
  An element: its tag, its \<^verbatim>\<open>id\<close>, its class tokens in order, its \<^verbatim>\<open>href\<close> attribute
  (\<open>None\<close> when absent, as \<^verbatim>\<open>getAttribute\<close> returns \<^verbatim>\<open>null\<close>), its \<^verbatim>\<open>offsetTop\<close> in CSS
  pixels and its inline style.
\<close>

record element =
  tag :: string
  elem_id :: "string option"
  class_list :: "string list"
  href_attr :: "string option"
  offset_top :: int
  el_style :: style

type_synonym document = "element list"

definition empty_style :: style where
  "empty_style = \<lparr>opacity = [], transform = [], transition = [], display = []\<rparr>"

section \<open>The class token list\<close>

text \<open>
  \<^verbatim>\<open>classList\<close> is an ordered set of tokens: \<^verbatim>\<open>add\<close> appends a token that is absent
  and leaves a present one alone, \<^verbatim>\<open>remove\<close> deletes every occurrence.
\<close>

definition class_contains :: "string list \<Rightarrow> string \<Rightarrow> bool" where
  "class_contains cl c = (c \<in> set cl)"

definition class_add :: "string list \<Rightarrow> string \<Rightarrow> string list" where
  "class_add cl c = (if c \<in> set cl then cl else cl @ [c])"

definition class_remove :: "string list \<Rightarrow> string \<Rightarrow> string list" where
  "class_remove cl c = removeAll c cl"

section \<open>Queries\<close>

text \<open>\<^verbatim>\<open>document.getElementById(s)\<close>: the first element with that id; never one for \<^verbatim>\<open>''\<close>.\<close>

definition getElementById :: "document \<Rightarrow> string \<Rightarrow> nat option" where
  "getElementById d s = (if s = [] then None else index_where (\<lambda>e. elem_id e = Some s) d)"

text \<open>\<^verbatim>\<open>document.querySelector('.c')\<close>: the first element that carries class \<open>c\<close>.\<close>

definition querySelector_class :: "document \<Rightarrow> string \<Rightarrow> nat option" where
  "querySelector_class d c = index_where (\<lambda>e. class_contains (class_list e) c) d"

text \<open>
  \<^verbatim>\<open>document.querySelectorAll(sel)\<close> for a selector given as a predicate on elements:
  every matching element once, in tree order.
\<close>

definition querySelectorAll :: "document \<Rightarrow> (element \<Rightarrow> bool) \<Rightarrow> nat list" where
  "querySelectorAll d P = filter (\<lambda>i. P (d ! i)) [0..<length d]"

section \<open>Writes\<close>

text \<open>A write to one node; a position outside the document writes nothing.\<close>

definition update_elem :: "document \<Rightarrow> nat \<Rightarrow> (element \<Rightarrow> element) \<Rightarrow> document" where
  "update_elem d i f = (if i < length d then d[i := f (d ! i)] else d)"

definition set_style :: "document \<Rightarrow> nat \<Rightarrow> (style \<Rightarrow> style) \<Rightarrow> document" where
  "set_style d i f = update_elem d i (\<lambda>e. e\<lparr>el_style := f (el_style e)\<rparr>)"

definition set_classes :: "document \<Rightarrow> nat \<Rightarrow> (string list \<Rightarrow> string list) \<Rightarrow> document" where
  "set_classes d i f = update_elem d i (\<lambda>e. e\<lparr>class_list := f (class_list e)\<rparr>)"

text \<open>The inline display of a node, read back (\<open>None\<close> for a position outside the document).\<close>

definition display_of :: "document \<Rightarrow> nat \<Rightarrow> string option" where
  "display_of d i = (if i < length d then Some (display (el_style (d ! i))) else None)"

section \<open>Lemmas on the store\<close>

lemma length_update_elem [simp, dom_simps]: "length (update_elem d i f) = length d"
  by (simp add: update_elem_def)

lemma nth_update_elem [dom_simps]:
  "j < length d \<Longrightarrow> update_elem d i f ! j = (if i = j then f (d ! j) else d ! j)"
  by (simp add: update_elem_def)

lemma update_elem_id [simp]: "(\<And>e. f e = e) \<Longrightarrow> update_elem d i f = d"
  by (simp add: update_elem_def)

text \<open>
  Writes to the same node commute when the two updates commute, and writes to two
  different nodes always do: the shape of every "handlers do not interfere" fact.
\<close>

lemma update_elem_commute:
  assumes "\<And>e. f (g e) = g (f e)"
  shows "update_elem (update_elem d i f) j g = update_elem (update_elem d j g) i f"
  using assms by (cases "i = j") (auto simp: update_elem_def list_update_swap)

lemma update_elem_twice:
  "update_elem (update_elem d i f) i g = update_elem d i (g \<circ> f)"
  by (simp add: update_elem_def)

lemma length_set_style [simp, dom_simps]: "length (set_style d i f) = length d"
  by (simp add: set_style_def)

lemma length_set_classes [simp, dom_simps]: "length (set_classes d i f) = length d"
  by (simp add: set_classes_def)

lemma class_list_set_style [simp, dom_simps]:
  "j < length d \<Longrightarrow> class_list (set_style d i f ! j) = class_list (d ! j)"
  by (simp add: set_style_def nth_update_elem)

lemma el_style_set_classes [simp, dom_simps]:
  "j < length d \<Longrightarrow> el_style (set_classes d i f ! j) = el_style (d ! j)"
  by (simp add: set_classes_def nth_update_elem)

lemma el_style_set_style [dom_simps]:
  "j < length d \<Longrightarrow> el_style (set_style d i f ! j) = (if i = j then f (el_style (d ! j)) else el_style (d ! j))"
  by (simp add: set_style_def nth_update_elem)

lemma class_list_set_classes [dom_simps]:
  "j < length d \<Longrightarrow> class_list (set_classes d i f ! j) = (if i = j then f (class_list (d ! j)) else class_list (d ! j))"
  by (simp add: set_classes_def nth_update_elem)

text \<open>The static parts of a node (tag, id, attribute, layout) are never written.\<close>

lemma static_set_style [simp, dom_simps]:
  "j < length d \<Longrightarrow> tag (set_style d i f ! j) = tag (d ! j)"
  "j < length d \<Longrightarrow> elem_id (set_style d i f ! j) = elem_id (d ! j)"
  "j < length d \<Longrightarrow> href_attr (set_style d i f ! j) = href_attr (d ! j)"
  "j < length d \<Longrightarrow> offset_top (set_style d i f ! j) = offset_top (d ! j)"
  by (simp_all add: set_style_def nth_update_elem)

lemma static_set_classes [simp, dom_simps]:
  "j < length d \<Longrightarrow> tag (set_classes d i f ! j) = tag (d ! j)"
  "j < length d \<Longrightarrow> elem_id (set_classes d i f ! j) = elem_id (d ! j)"
  "j < length d \<Longrightarrow> href_attr (set_classes d i f ! j) = href_attr (d ! j)"
  "j < length d \<Longrightarrow> offset_top (set_classes d i f ! j) = offset_top (d ! j)"
  by (simp_all add: set_classes_def nth_update_elem)

text \<open>A style write and a class write commute, whatever nodes they address.\<close>

lemma set_style_set_classes_commute:
  "set_classes (set_style d i f) j g = set_style (set_classes d j g) i f"
  unfolding set_style_def set_classes_def
  by (rule update_elem_commute [symmetric]) simp

lemma display_of_set_style [dom_simps]:
  "display_of (set_style d i f) j =
     (if i = j \<and> j < length d then Some (display (f (el_style (d ! j)))) else display_of d j)"
  by (simp add: display_of_def el_style_set_style)

lemma display_of_set_classes [simp, dom_simps]:
  "display_of (set_classes d i f) j = display_of d j"
  by (simp add: display_of_def)

section \<open>Lemmas on the class token list\<close>

lemma class_contains_add [simp]: "class_contains (class_add cl c) c' \<longleftrightarrow> c' = c \<or> class_contains cl c'"
  by (auto simp: class_contains_def class_add_def)

lemma class_contains_remove [simp]: "class_contains (class_remove cl c) c' \<longleftrightarrow> c' \<noteq> c \<and> class_contains cl c'"
  by (auto simp: class_contains_def class_remove_def)

lemma class_add_idem [simp]: "class_add (class_add cl c) c = class_add cl c"
  by (simp add: class_add_def)

lemma class_remove_idem [simp]: "class_remove (class_remove cl c) c = class_remove cl c"
  by (simp add: class_remove_def)

lemma class_add_present: "class_contains cl c \<Longrightarrow> class_add cl c = cl"
  by (simp add: class_add_def class_contains_def)

lemma class_remove_absent: "\<not> class_contains cl c \<Longrightarrow> class_remove cl c = cl"
  by (simp add: class_remove_def class_contains_def)

section \<open>Lemmas on the queries\<close>

lemma getElementById_Some:
  "getElementById d s = Some i \<Longrightarrow> i < length d \<and> s \<noteq> [] \<and> elem_id (d ! i) = Some s"
  by (auto simp: getElementById_def split: if_splits)

lemma getElementById_None:
  "getElementById d s = None \<longleftrightarrow> s = [] \<or> (\<forall>e \<in> set d. elem_id e \<noteq> Some s)"
  by (simp add: getElementById_def)

lemma querySelector_class_Some:
  "querySelector_class d c = Some i \<Longrightarrow> i < length d \<and> class_contains (class_list (d ! i)) c"
  by (auto simp: querySelector_class_def)

lemma set_querySelectorAll [simp]:
  "set (querySelectorAll d P) = {i. i < length d \<and> P (d ! i)}"
  by (auto simp: querySelectorAll_def)

lemma distinct_querySelectorAll [simp]: "distinct (querySelectorAll d P)"
  by (simp add: querySelectorAll_def)

lemma sorted_querySelectorAll [simp]: "sorted (querySelectorAll d P)"
  by (simp add: querySelectorAll_def sorted_wrt_filter)

end
