(* ===== verification/Anchor.thy ===== *)
theory Anchor
  imports Dom
begin

text \<open>
  The Anchor Scroller of \<^verbatim>\<open>src/src/js/main.js\<close> (lines 51--73): the selection of the
  same-page links at \<^verbatim>\<open>DOMContentLoaded\<close> and the click handler installed on each.
  The handler reads the link's \<^verbatim>\<open>href\<close> attribute at click time, so it takes the
  attribute as an argument; its effect is whether the default action was prevented and
  the \<^verbatim>\<open>window.scrollTo\<close> request it makes, if any.
\<close>

section \<open>Definitions\<close>

text \<open>The options object passed to \<^verbatim>\<open>window.scrollTo\<close>.\<close>

record scroll_options =
  top :: int
  behavior :: string

text \<open>The selector \<^verbatim>\<open>a[href^="#"]\<close>: an anchor whose \<^verbatim>\<open>href\<close> attribute starts with \<^verbatim>\<open>#\<close>.\<close>

definition is_hash_anchor :: "element \<Rightarrow> bool" where
  "is_hash_anchor e =
     (tag e = ''a'' \<and> (case href_attr e of None \<Rightarrow> False | Some h \<Rightarrow> starts_with h ''#''))"

text \<open>
  The links that receive the scrolling handler: the matches of the selector, less those
  that carry class \<^verbatim>\<open>language-switcher\<close> (the early \<^verbatim>\<open>return\<close> of the \<^verbatim>\<open>forEach\<close> body).
\<close>

definition nav_links :: "document \<Rightarrow> nat list" where
  "nav_links d =
     filter (\<lambda>i. \<not> class_contains (class_list (d ! i)) ''language-switcher'')
       (querySelectorAll d is_hash_anchor)"

text \<open>
  The click handler. On a link whose \<^verbatim>\<open>href\<close> is \<^verbatim>\<open>#\<close> or empty it does nothing. Otherwise it
  prevents the default, looks the fragment up by id and, if an element has it, asks for a
  smooth scroll to 80 pixels above the element. An absent attribute (\<^verbatim>\<open>null\<close>) passes
  both comparisons and makes \<^verbatim>\<open>href.substring\<close> throw.
\<close>

definition nav_link_click :: "document \<Rightarrow> string option \<Rightarrow> bool \<times> scroll_options option js_result" where
  "nav_link_click d hrefAttr =
     (case hrefAttr of
        None \<Rightarrow> (True, Inl (TypeError ''substring''))
      | Some href \<Rightarrow>
          (if href \<noteq> ''#'' \<and> href \<noteq> '''' then
             (True,
              let targetId = substring1 href
              in Inr (case getElementById d targetId of
                        None \<Rightarrow> None
                      | Some t \<Rightarrow>
                          let offsetTop = offset_top (d ! t) - 80
                          in Some \<lparr>top = offsetTop, behavior = ''smooth''\<rparr>))
           else (False, Inr None)))"

section \<open>Lemmas\<close>

lemma nav_link_click_hash:
  "s \<noteq> [] \<Longrightarrow>
   nav_link_click d (Some (CHR ''#'' # s)) =
     (True, Inr (map_option (\<lambda>t. \<lparr>top = offset_top (d ! t) - 80, behavior = ''smooth''\<rparr>)
                   (getElementById d s)))"
  by (cases s) (simp_all add: nav_link_click_def split: option.splits)

lemma mem_nav_links:
  "i \<in> set (nav_links d) \<longleftrightarrow>
     i < length d \<and> is_hash_anchor (d ! i) \<and>
     \<not> class_contains (class_list (d ! i)) ''language-switcher''"
  by (auto simp: nav_links_def)

section \<open>Properties\<close>

text \<open>
  C13. A link whose \<^verbatim>\<open>href\<close> is \<^verbatim>\<open>#\<close> or empty neither prevents the default action nor
  asks for a scroll.
\<close>

theorem nav_link_click_trivial:
  "nav_link_click d (Some ''#'') = (False, Inr None) \<and> nav_link_click d (Some '''') = (False, Inr None)"
  by (simp add: nav_link_click_def)

text \<open>
  C14. A link to a fragment that no element carries as its id prevents the default action
  and asks for no scroll: a silent no-op, not an exception.
\<close>

theorem nav_link_click_missing:
  assumes "s \<noteq> []" and "\<forall>e \<in> set d. elem_id e \<noteq> Some s"
  shows "nav_link_click d (Some (''#'' @ s)) = (True, Inr None)"
  using assms by (simp add: nav_link_click_hash getElementById_def)

theorem nav_link_click_missing_witness:
  "''x'' \<noteq> [] \<and>
   nav_link_click [\<lparr>tag = ''div'', elem_id = Some ''top'', class_list = [], href_attr = None,
        offset_top = 0, el_style = empty_style\<rparr>] (Some (''#'' @ ''x'')) = (True, Inr None)"
  using nav_link_click_missing [of "''x''" "[\<lparr>tag = ''div'', elem_id = Some ''top'', class_list = [],
      href_attr = None, offset_top = 0, el_style = empty_style\<rparr>]"]
  by simp

text \<open>
  C15. A link to the fragment of an element prevents the default action and asks for a
  smooth scroll to the element's \<^verbatim>\<open>offsetTop\<close> less 80 pixels; the element is the first in
  tree order that carries the id.
\<close>

theorem nav_link_click_found:
  assumes "s \<noteq> []" and "i < length d" and "elem_id (d ! i) = Some s"
    and "\<forall>j < i. elem_id (d ! j) \<noteq> Some s"
  shows "nav_link_click d (Some (''#'' @ s)) =
           (True, Inr (Some \<lparr>top = offset_top (d ! i) - 80, behavior = ''smooth''\<rparr>))"
proof -
  from assms(2-4) have "index_where (\<lambda>e. elem_id e = Some s) d = Some i"
    by (simp add: index_where_Some_iff)
  with assms(1) have "getElementById d s = Some i"
    by (simp add: getElementById_def)
  with assms(1) show ?thesis
    by (cases s) (simp_all add: nav_link_click_def)
qed

theorem nav_link_click_found_witness:
  "''pricing'' \<noteq> [] \<and> (1::nat) < length [\<lparr>tag = ''a'', elem_id = None, class_list = [], href_attr = Some ''#pricing'',
        offset_top = 10, el_style = empty_style\<rparr>,
      \<lparr>tag = ''section'', elem_id = Some ''pricing'', class_list = [], href_attr = None,
        offset_top = 500, el_style = empty_style\<rparr>] \<and>
   nav_link_click [\<lparr>tag = ''a'', elem_id = None, class_list = [], href_attr = Some ''#pricing'',
        offset_top = 10, el_style = empty_style\<rparr>,
      \<lparr>tag = ''section'', elem_id = Some ''pricing'', class_list = [], href_attr = None,
        offset_top = 500, el_style = empty_style\<rparr>] (Some (''#'' @ ''pricing'')) =
     (True, Inr (Some \<lparr>top = 420, behavior = ''smooth''\<rparr>))"
proof -
  let ?d = "[\<lparr>tag = ''a'', elem_id = None, class_list = [], href_attr = Some ''#pricing'',
        offset_top = 10, el_style = empty_style\<rparr>,
      \<lparr>tag = ''section'', elem_id = Some ''pricing'', class_list = [], href_attr = None,
        offset_top = 500, el_style = empty_style\<rparr>]"
  have "\<forall>j < 1. elem_id (?d ! j) \<noteq> Some ''pricing''" by simp
  from nav_link_click_found [of "''pricing''" 1 ?d, OF _ _ _ this] show ?thesis
    by simp
qed

text \<open>
  C16. The scrolling handler is installed on exactly the anchors whose \<^verbatim>\<open>href\<close> starts
  with \<^verbatim>\<open>#\<close> and that are not language switchers, and on each of them, as long as the
  attribute keeps its value, a click never throws.
\<close>

theorem nav_links_spec:
  "set (nav_links d) =
     {i. i < length d \<and> tag (d ! i) = ''a'' \<and> (\<exists>h. href_attr (d ! i) = Some (''#'' @ h)) \<and>
         \<not> class_contains (class_list (d ! i)) ''language-switcher''} \<and>
   (\<forall>i \<in> set (nav_links d). \<exists>r. nav_link_click d (href_attr (d ! i)) = (fst (nav_link_click d (href_attr (d ! i))), Inr r))"
proof -
  have sel: "is_hash_anchor e \<longleftrightarrow> tag e = ''a'' \<and> (\<exists>h. href_attr e = Some (''#'' @ h))" for e
    by (auto simp: is_hash_anchor_def starts_with_iff split: option.splits)
  have ok: "\<exists>r. nav_link_click d (Some h) = (fst (nav_link_click d (Some h)), Inr r)" for h
    by (simp add: nav_link_click_def)
  show ?thesis
    by (auto simp: mem_nav_links sel ok)
qed

theorem nav_links_spec_witness:
  "set (nav_links [\<lparr>tag = ''a'', elem_id = None, class_list = [''language-switcher''],
        href_attr = Some ''#he'', offset_top = 0, el_style = empty_style\<rparr>,
      \<lparr>tag = ''a'', elem_id = None, class_list = [], href_attr = Some ''#about'',
        offset_top = 0, el_style = empty_style\<rparr>,
      \<lparr>tag = ''a'', elem_id = None, class_list = [], href_attr = Some ''/he/'',
        offset_top = 0, el_style = empty_style\<rparr>]) = {1}"
proof -
  let ?d = "[\<lparr>tag = ''a'', elem_id = None, class_list = [''language-switcher''],
        href_attr = Some ''#he'', offset_top = 0, el_style = empty_style\<rparr>,
      \<lparr>tag = ''a'', elem_id = None, class_list = [], href_attr = Some ''#about'',
        offset_top = 0, el_style = empty_style\<rparr>,
      \<lparr>tag = ''a'', elem_id = None, class_list = [], href_attr = Some ''/he/'',
        offset_top = 0, el_style = empty_style\<rparr>]"
  have "{i. i < length ?d \<and> tag (?d ! i) = ''a'' \<and> (\<exists>h. href_attr (?d ! i) = Some (''#'' @ h)) \<and>
         \<not> class_contains (class_list (?d ! i)) ''language-switcher''} = {1}"
    by (auto simp: class_contains_def less_Suc_eq numeral_2_eq_2 numeral_3_eq_3)
  with nav_links_spec [of ?d] show ?thesis
    by simp
qed

end
