(* ===== verification/Form.thy ===== *)
theory Form
  imports Dom
begin

text \<open>
  The Contact Form Submitter of \<^verbatim>\<open>src/src/js/main.js\<close> (lines 78--118). The
  \<^verbatim>\<open>async\<close> submit handler runs in two parts: the synchronous part up to
  \<^verbatim>\<open>await fetch(...)\<close> (\<open>form_submit\<close>), and the continuation that runs when that
  request settles (\<open>form_settle\<close>). Between the two, other events run, including
  further submissions: the requests in flight are the list \<open>pending\<close>, and a
  continuation is identified by its request's number. The form's controls are the
  list \<open>form_fields\<close> (what \<^verbatim>\<open>new FormData(this)\<close> reads and \<^verbatim>\<open>this.reset()\<close> resets); the
  two message elements are nodes of the document, found once at \<^verbatim>\<open>DOMContentLoaded\<close>.
  \<^verbatim>\<open>console.error\<close> appends to \<open>console_log\<close>.
\<close>

section \<open>Definitions\<close>

text \<open>How a \<^verbatim>\<open>fetch\<close> settles: a response with its HTTP status, or a rejection.\<close>

datatype fetch_result = Response int | NetworkError

text \<open>The two errors the \<^verbatim>\<open>catch\<close> block can receive.\<close>

datatype submit_error = FormSubmissionFailed | FetchRejected

record request =
  req_id :: nat
  req_url :: string
  req_method :: string
  req_headers :: "(string \<times> string) list"
  req_body :: "(string \<times> string) list"

record field =
  field_name :: string
  field_value :: string
  field_default :: string

record form_state =
  form_action :: string
  form_method :: string
  form_fields :: "field list"
  successMessage :: "nat option"
  errorMessage :: "nat option"
  pending :: "request list"
  next_req :: nat
  console_log :: "submit_error list"

type_synonym form_cfg = "document \<times> form_state"

text \<open>
  The state the set-up creates (lines 78--80): the message elements are the first
  \<^verbatim>\<open>.success-message\<close> and \<^verbatim>\<open>.error-message\<close> of the document.
\<close>

definition form_init :: "document \<Rightarrow> string \<Rightarrow> string \<Rightarrow> field list \<Rightarrow> form_state" where
  "form_init d action method fs =
     \<lparr>form_action = action, form_method = method, form_fields = fs,
      successMessage = querySelector_class d ''success-message'',
      errorMessage = querySelector_class d ''error-message'',
      pending = [], next_req = 0, console_log = []\<rparr>"

text \<open>\<^verbatim>\<open>new FormData(this)\<close>: the name and current value of every control.\<close>

definition form_data :: "field list \<Rightarrow> (string \<times> string) list" where
  "form_data fs = map (\<lambda>f. (field_name f, field_value f)) fs"

text \<open>\<^verbatim>\<open>this.reset()\<close>: every control back to its default value.\<close>

definition form_reset :: "field list \<Rightarrow> field list" where
  "form_reset fs = map (\<lambda>f. f\<lparr>field_value := field_default f\<rparr>) fs"

text \<open>\<^verbatim>\<open>if (m) m.style.display = v\<close>, the guarded write to an optional message element.\<close>

definition set_display :: "document \<Rightarrow> nat option \<Rightarrow> string \<Rightarrow> document" where
  "set_display d m v = (case m of None \<Rightarrow> d | Some n \<Rightarrow> set_style d n (\<lambda>s. s\<lparr>display := v\<rparr>))"

text \<open>
  The synchronous part of the handler (lines 83--101): prevent the default, hide both
  messages, read the fields and start the request. The method is the literal
  \<^verbatim>\<open>'POST'\<close>, whatever the form declares.
\<close>

definition form_submit :: "document \<Rightarrow> form_state \<Rightarrow> bool \<times> document \<times> form_state" where
  "form_submit d st =
     (let d1 = set_display d (successMessage st) ''none'';
          d2 = set_display d1 (errorMessage st) ''none'';
          formData = form_data (form_fields st);
          req = \<lparr>req_id = next_req st, req_url = form_action st, req_method = ''POST'',
                 req_headers = [(''Accept'', ''application/json'')], req_body = formData\<rparr>
      in (True, d2, st\<lparr>pending := pending st @ [req], next_req := Suc (next_req st)\<rparr>))"

text \<open>\<^verbatim>\<open>response.ok\<close>: a status in the range 200--299.\<close>

definition response_ok :: "int \<Rightarrow> bool" where
  "response_ok status = (200 \<le> status \<and> status \<le> 299)"

text \<open>
  The \<^verbatim>\<open>try\<close> block after the request settles (lines 95--110): \<open>Inr ()\<close> when it
  completes, \<open>Inl\<close> the error it throws or the rejection \<^verbatim>\<open>await\<close> rethrows.
\<close>

definition await_fetch :: "fetch_result \<Rightarrow> submit_error + unit" where
  "await_fetch r =
     (case r of
        NetworkError \<Rightarrow> Inl FetchRejected
      | Response status \<Rightarrow> if response_ok status then Inr () else Inl FormSubmissionFailed)"

text \<open>
  The continuation of request \<open>rid\<close> (lines 103--116). On success it shows the success
  message and resets the form, both inside \<^verbatim>\<open>if (successMessage)\<close>; on an error it
  logs and shows the error message. A number that is not in flight has no
  continuation to run.
\<close>

definition form_settle :: "document \<Rightarrow> form_state \<Rightarrow> nat \<Rightarrow> fetch_result \<Rightarrow> form_cfg" where
  "form_settle d st rid r =
     (if rid \<notin> req_id ` set (pending st) then (d, st)
      else
        let st1 = st\<lparr>pending := filter (\<lambda>q. req_id q \<noteq> rid) (pending st)\<rparr>
        in case await_fetch r of
             Inr _ \<Rightarrow>
               (case successMessage st1 of
                  None \<Rightarrow> (d, st1)
                | Some m \<Rightarrow> (set_display d (Some m) ''block'', st1\<lparr>form_fields := form_reset (form_fields st1)\<rparr>))
           | Inl err \<Rightarrow>
               let st2 = st1\<lparr>console_log := console_log st1 @ [err]\<rparr>
               in (set_display d (errorMessage st2) ''block'', st2))"

text \<open>Whether an optional message element is shown (its inline display is \<^verbatim>\<open>block\<close>).\<close>

definition shown :: "document \<Rightarrow> nat option \<Rightarrow> bool" where
  "shown d m = (case m of None \<Rightarrow> False | Some n \<Rightarrow> display_of d n = Some ''block'')"

text \<open>
  The form's steps as the event loop runs them: a submission at any time, or the
  continuation of any request in flight.
\<close>

inductive form_step :: "form_cfg \<Rightarrow> form_cfg \<Rightarrow> bool" where
  submit: "form_submit d st = (p, d', st') \<Longrightarrow> form_step (d, st) (d', st')"
| settle: "q \<in> set (pending st) \<Longrightarrow> form_step (d, st) (form_settle d st (req_id q) r)"

text \<open>The same steps when the user submits only while no request is in flight.\<close>

inductive seq_step :: "form_cfg \<Rightarrow> form_cfg \<Rightarrow> bool" where
  submit: "pending st = [] \<Longrightarrow> form_submit d st = (p, d', st') \<Longrightarrow> seq_step (d, st) (d', st')"
| settle: "q \<in> set (pending st) \<Longrightarrow> seq_step (d, st) (form_settle d st (req_id q) r)"

text \<open>
  Well-formedness: the two message elements are different nodes. The invariant of one request at a time: at most one in flight, never both messages
  shown, and neither while a request is in flight.
\<close>

definition form_wf :: "document \<Rightarrow> form_state \<Rightarrow> bool" where
  "form_wf d st =
     (case (successMessage st, errorMessage st) of
        (Some s, Some e) \<Rightarrow> s \<noteq> e
      | _ \<Rightarrow> True)"

definition form_inv :: "form_cfg \<Rightarrow> bool" where
  "form_inv c =
     (let (d, st) = c
      in length (pending st) \<le> 1 \<and>
         \<not> (shown d (successMessage st) \<and> shown d (errorMessage st)) \<and>
         (pending st = [] \<or> \<not> shown d (successMessage st) \<and> \<not> shown d (errorMessage st)))"


text \<open>A sample contact page: the form, its success message and its error message.\<close>

definition contact_doc :: document where
  "contact_doc =
     [\<lparr>tag = ''form'', elem_id = Some ''contact-form'', class_list = [], href_attr = None,
       offset_top = 900, el_style = empty_style\<rparr>,
      \<lparr>tag = ''div'', elem_id = None, class_list = [''success-message''], href_attr = None,
       offset_top = 1200, el_style = empty_style\<rparr>,
      \<lparr>tag = ''div'', elem_id = None, class_list = [''error-message''], href_attr = None,
       offset_top = 1250, el_style = empty_style\<rparr>]"

definition contact_form0 :: form_state where
  "contact_form0 =
     form_init contact_doc ''https://example.org/contact'' ''POST''
       [\<lparr>field_name = ''email'', field_value = ''a@b.c'', field_default = []\<rparr>]"

section \<open>Lemmas\<close>

lemma set_display_None [simp]: "set_display d None v = d"
  by (simp add: set_display_def)

lemma length_set_display [simp]: "length (set_display d m v) = length d"
  by (simp add: set_display_def split: option.splits)

lemma shown_None [simp]: "\<not> shown d None"
  by (simp add: shown_def)

lemma shown_set_display:
  "shown (set_display d (Some n) v) m = (if m = Some n then n < length d \<and> v = ''block'' else shown d m)"
proof (cases "m = Some n")
  case True
  then show ?thesis
    by (simp add: shown_def set_display_def display_of_set_style) (simp add: display_of_def)
next
  case False
  then show ?thesis
    by (cases m) (auto simp: shown_def set_display_def display_of_set_style)
qed

lemma form_submit_eq:
  "form_submit d st =
     (True, set_display (set_display d (successMessage st) ''none'') (errorMessage st) ''none'',
      st\<lparr>pending := pending st @ [\<lparr>req_id = next_req st, req_url = form_action st, req_method = ''POST'',
              req_headers = [(''Accept'', ''application/json'')], req_body = form_data (form_fields st)\<rparr>],
         next_req := Suc (next_req st)\<rparr>)"
  by (simp add: form_submit_def Let_def)

lemma shown_hidden:
  "\<not> shown (set_display (set_display d sm ''none'') em ''none'') sm \<and>
   \<not> shown (set_display (set_display d sm ''none'') em ''none'') em"
  by (cases sm; cases em) (auto simp: shown_set_display)

lemma form_settle_absent [simp]:
  "rid \<notin> req_id ` set (pending st) \<Longrightarrow> form_settle d st rid r = (d, st)"
  by (simp add: form_settle_def)

lemma form_settle_ok:
  "rid \<in> req_id ` set (pending st) \<Longrightarrow> response_ok s \<Longrightarrow>
   form_settle d st rid (Response s) =
     (let st1 = st\<lparr>pending := filter (\<lambda>q. req_id q \<noteq> rid) (pending st)\<rparr>
      in case successMessage st of
           None \<Rightarrow> (d, st1)
         | Some m \<Rightarrow> (set_display d (Some m) ''block'', st1\<lparr>form_fields := form_reset (form_fields st)\<rparr>))"
  by (simp add: form_settle_def await_fetch_def Let_def split: option.split)

lemma form_settle_fail:
  "rid \<in> req_id ` set (pending st) \<Longrightarrow> await_fetch r = Inl err \<Longrightarrow>
   form_settle d st rid r =
     (set_display d (errorMessage st) ''block'',
      st\<lparr>pending := filter (\<lambda>q. req_id q \<noteq> rid) (pending st), console_log := console_log st @ [err]\<rparr>)"
  by (simp add: form_settle_def Let_def)

lemma form_settle_msgs [simp]:
  "successMessage (snd (form_settle d st rid r)) = successMessage st"
  "errorMessage (snd (form_settle d st rid r)) = errorMessage st"
  "length (fst (form_settle d st rid r)) = length d"
  by (auto simp: form_settle_def Let_def split: sum.splits option.splits)

lemma form_settle_pending:
  "pending (snd (form_settle d st rid r)) = filter (\<lambda>q. req_id q \<noteq> rid) (pending st)"
proof (cases "rid \<in> req_id ` set (pending st)")
  case False
  then have "filter (\<lambda>q. req_id q \<noteq> rid) (pending st) = pending st"
    by (auto intro: filter_True)
  with False show ?thesis by simp
qed (auto simp: form_settle_def Let_def split: sum.splits option.splits)


lemma req_id_filter_out [simp]:
  "rid \<notin> req_id ` {x \<in> set xs. req_id x \<noteq> rid}"
  by auto

lemma await_fetch_fail:
  "\<not> (\<exists>s. r = Response s \<and> response_ok s) \<Longrightarrow>
   await_fetch r = Inl (if r = NetworkError then FetchRejected else FormSubmissionFailed)"
  by (cases r) (auto simp: await_fetch_def)

lemma seq_step_form_step: "seq_step c c' \<Longrightarrow> form_step c c'"
  by (induction rule: seq_step.induct) (auto intro: form_step.intros)

lemma form_step_msgs:
  "form_step c c' \<Longrightarrow>
   successMessage (snd c') = successMessage (snd c) \<and> errorMessage (snd c') = errorMessage (snd c) \<and>
   length (fst c') = length (fst c)"
  by (induction rule: form_step.induct) (auto simp: form_submit_eq)

lemma seq_step_inv:
  assumes "seq_step c c'" and "form_wf (fst c) (snd c)" and "form_inv c"
  shows "form_inv c'"
  using assms
proof (induction rule: seq_step.induct)
  case (submit st d p d' st')
  then show ?case
    by (auto simp: form_submit_eq form_inv_def shown_hidden)
next
  case (settle q st d r)
  from settle.prems(2) settle.hyps have one: "pending st = [q]"
    by (cases "pending st") (auto simp: form_inv_def)
  from settle.prems(2) settle.hyps have none:
    "\<not> shown d (successMessage st)" "\<not> shown d (errorMessage st)"
    by (auto simp: form_inv_def)
  have idq: "req_id q \<in> req_id ` set (pending st)" using settle.hyps by simp
  show ?case
  proof (cases "\<exists>s. r = Response s \<and> response_ok s")
    case True
    then obtain s where r: "r = Response s" and ok: "response_ok s" by blast
    with idq one none settle.prems(1) show ?thesis
      by (auto simp: form_settle_ok form_inv_def form_wf_def shown_set_display split: option.splits)
  next
    case False
    with idq one none settle.prems(1) show ?thesis
      by (auto simp: form_settle_fail [OF idq await_fetch_fail [OF False]] form_inv_def
          form_wf_def shown_set_display split: option.splits)
  qed
qed

lemma form_step_submit_any: "form_step c (snd (form_submit (fst c) (snd c)))"
  by (cases c; cases "form_submit (fst c) (snd c)") (auto intro: form_step.submit)

lemma form_step_settle_any:
  "q \<in> set (pending (snd c)) \<Longrightarrow> form_step c (form_settle (fst c) (snd c) (req_id q) r)"
  by (cases c) (auto intro: form_step.settle)

lemma seq_step_submit_any:
  "pending (snd c) = [] \<Longrightarrow> seq_step c (snd (form_submit (fst c) (snd c)))"
  by (cases c; cases "form_submit (fst c) (snd c)") (auto intro: seq_step.submit)

lemma seq_step_settle_any:
  "q \<in> set (pending (snd c)) \<Longrightarrow> seq_step c (form_settle (fst c) (snd c) (req_id q) r)"
  by (cases c) (auto intro: seq_step.settle)

lemmas contact_simps = contact_doc_def contact_form0_def form_init_def querySelector_class_def
  class_contains_def form_data_def form_reset_def response_ok_def await_fetch_def
  set_display_def set_style_def update_elem_def shown_def display_of_def form_wf_def

section \<open>Properties\<close>

text \<open>
  C1. A submission prevents the default post, hides both messages, and starts one request:
  to the form's \<^verbatim>\<open>action\<close>, with method \<^verbatim>\<open>POST\<close> whatever the form declares, the
  header \<^verbatim>\<open>Accept: application/json\<close> and the fields' current values as body; the
  fields are left as they are.
\<close>

theorem form_submit_request:
  "case form_submit d st of (p, d', st') \<Rightarrow>
     p \<and> \<not> shown d' (successMessage st) \<and> \<not> shown d' (errorMessage st) \<and>
     pending st' = pending st @ [\<lparr>req_id = next_req st, req_url = form_action st, req_method = ''POST'',
        req_headers = [(''Accept'', ''application/json'')], req_body = form_data (form_fields st)\<rparr>] \<and>
     form_fields st' = form_fields st \<and> length d' = length d"
  by (simp add: form_submit_eq shown_hidden)

text \<open>
  C2. When a request in flight settles with a successful status, the success message is
  shown, the error message is left as it was, the fields are reset to their defaults, and
  the request is no longer in flight.
\<close>

theorem form_settle_success:
  assumes "q \<in> set (pending st)" and "successMessage st = Some m" and "m < length d"
    and "response_ok s" and "form_wf d st"
  shows "case form_settle d st (req_id q) (Response s) of (d', st') \<Rightarrow>
     shown d' (successMessage st') \<and> shown d' (errorMessage st') = shown d (errorMessage st) \<and>
     form_fields st' = form_reset (form_fields st) \<and> req_id q \<notin> req_id ` set (pending st') \<and>
     console_log st' = console_log st"
proof -
  have idq: "req_id q \<in> req_id ` set (pending st)" using assms(1) by simp
  from assms(2,5) have "errorMessage st \<noteq> Some m"
    by (auto simp: form_wf_def split: option.splits)
  with idq assms(2-4) show ?thesis
    by (simp add: form_settle_ok shown_set_display)
qed

theorem form_settle_success_witness:
  "case form_settle (fst (snd (form_submit contact_doc contact_form0)))
          (snd (snd (form_submit contact_doc contact_form0))) 0 (Response 200) of (d', st') \<Rightarrow>
     shown d' (successMessage st') \<and> form_fields st' = form_reset (form_fields contact_form0)"
proof -
  let ?d = "fst (snd (form_submit contact_doc contact_form0))"
  let ?st = "snd (snd (form_submit contact_doc contact_form0))"
  let ?q = "hd (pending ?st)"
  have q: "?q \<in> set (pending ?st)" and id: "req_id ?q = 0"
    by (simp_all add: form_submit_eq contact_simps)
  have m: "successMessage ?st = Some 1" and len: "1 < length ?d" and wf: "form_wf ?d ?st"
    by (simp_all add: form_submit_eq contact_simps)
  have ok: "response_ok 200" by (simp add: response_ok_def)
  from form_settle_success [OF q m len ok wf] id show ?thesis
    by (simp add: form_submit_eq split: prod.splits)
qed

text \<open>
  C3. When a request in flight settles with a non-success status or the network request
  fails, the error is logged and the error message is shown; the success message is left
  as it was and the fields keep the values the user typed.
\<close>

theorem form_settle_failure:
  assumes "q \<in> set (pending st)" and "errorMessage st = Some m" and "m < length d"
    and "\<not> (\<exists>s. r = Response s \<and> response_ok s)" and "form_wf d st"
  shows "case form_settle d st (req_id q) r of (d', st') \<Rightarrow>
     shown d' (errorMessage st') \<and> shown d' (successMessage st') = shown d (successMessage st) \<and>
     form_fields st' = form_fields st \<and> req_id q \<notin> req_id ` set (pending st') \<and>
     console_log st' = console_log st @ [if r = NetworkError then FetchRejected else FormSubmissionFailed]"
proof -
  have idq: "req_id q \<in> req_id ` set (pending st)" using assms(1) by simp
  from assms(2,5) have "successMessage st \<noteq> Some m"
    by (auto simp: form_wf_def split: option.splits)
  with idq assms(2,3) show ?thesis
    by (simp add: form_settle_fail [OF idq await_fetch_fail [OF assms(4)]] shown_set_display)
qed

theorem form_settle_failure_witness:
  "case form_settle (fst (snd (form_submit contact_doc contact_form0)))
          (snd (snd (form_submit contact_doc contact_form0))) 0 NetworkError of (d', st') \<Rightarrow>
     shown d' (errorMessage st') \<and> form_fields st' = form_fields contact_form0 \<and>
     console_log st' = [FetchRejected]"
proof -
  let ?d = "fst (snd (form_submit contact_doc contact_form0))"
  let ?st = "snd (snd (form_submit contact_doc contact_form0))"
  let ?q = "hd (pending ?st)"
  have q: "?q \<in> set (pending ?st)" and id: "req_id ?q = 0"
    by (simp_all add: form_submit_eq contact_simps)
  have m: "errorMessage ?st = Some 2" and len: "2 < length ?d" and wf: "form_wf ?d ?st"
    by (simp_all add: form_submit_eq contact_simps)
  have nok: "\<not> (\<exists>s. NetworkError = Response s \<and> response_ok s)" by simp
  from form_settle_failure [OF q m len nok wf] id show ?thesis
    by (simp add: form_submit_eq contact_simps split: prod.splits)
qed

text \<open>
  C4. With one submission at a time (the user submits only when no request is in flight),
  the two messages are never shown together, in any state reachable from a start where
  neither is shown.
\<close>

theorem seq_messages_exclusive:
  assumes "seq_step\<^sup>*\<^sup>* (d0, st0) (d, st)" and "form_wf d0 st0" and "pending st0 = []"
    and "\<not> shown d0 (successMessage st0)" and "\<not> shown d0 (errorMessage st0)"
  shows "\<not> (shown d (successMessage st) \<and> shown d (errorMessage st))"
proof -
  have "form_wf (fst c) (snd c) \<and> form_inv c" if "seq_step\<^sup>*\<^sup>* (d0, st0) c" for c
    using that
  proof (induction rule: rtranclp_induct)
    case base
    with assms(2-5) show ?case by (simp add: form_inv_def)
  next
    case (step c c')
    from step.hyps(2) have "form_step c c'" by (rule seq_step_form_step)
    then have "form_wf (fst c') (snd c') = form_wf (fst c) (snd c)"
      using form_step_msgs [of c c'] by (simp add: form_wf_def)
    with step seq_step_inv show ?case by blast
  qed
  from this [OF assms(1)] show ?thesis
    by (simp add: form_inv_def)
qed

theorem seq_messages_exclusive_witness:
  "\<not> (shown (fst (form_settle (fst (snd (form_submit contact_doc contact_form0)))
          (snd (snd (form_submit contact_doc contact_form0))) 0 (Response 200)))
        (successMessage (snd (form_settle (fst (snd (form_submit contact_doc contact_form0)))
          (snd (snd (form_submit contact_doc contact_form0))) 0 (Response 200)))) \<and>
       shown (fst (form_settle (fst (snd (form_submit contact_doc contact_form0)))
          (snd (snd (form_submit contact_doc contact_form0))) 0 (Response 200)))
        (errorMessage (snd (form_settle (fst (snd (form_submit contact_doc contact_form0)))
          (snd (snd (form_submit contact_doc contact_form0))) 0 (Response 200)))))"
proof -
  define c0 where "c0 = (contact_doc, contact_form0)"
  define c1 where "c1 = snd (form_submit (fst c0) (snd c0))"
  define q where "q = hd (pending (snd c1))"
  define c2 where "c2 = form_settle (fst c1) (snd c1) (req_id q) (Response 200)"
  have s1: "seq_step c0 c1" unfolding c1_def
    by (rule seq_step_submit_any) (simp add: c0_def contact_simps)
  have q: "q \<in> set (pending (snd c1))" and id: "req_id q = 0"
    by (simp_all add: q_def c1_def c0_def form_submit_eq contact_simps)
  have s2: "seq_step c1 c2" unfolding c2_def by (rule seq_step_settle_any [OF q])
  have reach: "seq_step\<^sup>*\<^sup>* (contact_doc, contact_form0) (fst c2, snd c2)"
    using s1 s2 unfolding c0_def by (simp add: converse_rtranclp_into_rtranclp)
  have start: "form_wf contact_doc contact_form0" "pending contact_form0 = []"
      "\<not> shown contact_doc (successMessage contact_form0)" "\<not> shown contact_doc (errorMessage contact_form0)"
    by (simp_all add: contact_simps empty_style_def)
  from seq_messages_exclusive [OF reach start] id show ?thesis
    by (simp add: c2_def c1_def c0_def)
qed
text \<open>
  C5. Without that restriction the messages are not exclusive: on any page whose two
  message elements are distinct nodes, two submissions whose responses arrive in the other
  order (the second succeeds, then the first fails) are a run of the event loop that
  leaves both messages shown, since the messages are hidden only when a submission starts.
\<close>

theorem concurrent_both_shown:
  assumes "form_wf d st" and "successMessage st = Some s" and "errorMessage st = Some e"
    and "s < length d" and "e < length d" and "pending st = []"
  shows "\<exists>d1 st1 d2 st2 d3 st3 d4 st4.
    form_submit d st = (True, d1, st1) \<and> form_submit d1 st1 = (True, d2, st2) \<and>
    map req_id (pending st2) = [next_req st, Suc (next_req st)] \<and>
    form_settle d2 st2 (Suc (next_req st)) (Response 200) = (d3, st3) \<and>
    form_settle d3 st3 (next_req st) (Response 500) = (d4, st4) \<and>
    form_step\<^sup>*\<^sup>* (d, st) (d4, st4) \<and>
    shown d4 (successMessage st) \<and> shown d4 (errorMessage st)"
proof -
  obtain d1 st1 where 1: "form_submit d st = (True, d1, st1)" by (simp add: form_submit_def Let_def)
  obtain d2 st2 where 2: "form_submit d1 st1 = (True, d2, st2)" by (simp add: form_submit_def Let_def)
  obtain d3 st3 where 3: "form_settle d2 st2 (Suc (next_req st)) (Response 200) = (d3, st3)"
    by (cases "form_settle d2 st2 (Suc (next_req st)) (Response 200)")
  obtain d4 st4 where 4: "form_settle d3 st3 (next_req st) (Response 500) = (d4, st4)"
    by (cases "form_settle d3 st3 (next_req st) (Response 500)")
  from 1 2 assms(6) obtain q0 q1 where p2: "pending st2 = [q0, q1]"
    and ids: "req_id q0 = next_req st" "req_id q1 = Suc (next_req st)"
    and m2: "successMessage st2 = Some s" "errorMessage st2 = Some e" "length d2 = length d"
    using assms(2,3) by (auto simp: form_submit_eq)
  from 3 p2 ids m2 have d3: "d3 = set_display d2 (Some s) ''block''" and p3: "pending st3 = [q0]"
    and m3: "errorMessage st3 = Some e"
    by (auto simp: form_settle_ok response_ok_def)
  from 4 p3 ids m3 have d4: "d4 = set_display d3 (Some e) ''block''"
    by (auto simp: form_settle_fail await_fetch_def response_ok_def)
  have steps: "form_step\<^sup>*\<^sup>* (d, st) (d4, st4)"
  proof -
    have "form_step (d, st) (d1, st1)" using 1 by (rule form_step.submit)
    moreover have "form_step (d1, st1) (d2, st2)" using 2 by (rule form_step.submit)
    moreover have "form_step (d2, st2) (d3, st3)"
      using form_step.settle [of q1 st2 d2 "Response 200"] p2 ids 3 by simp
    moreover have "q0 \<in> set (pending st3)" using p3 by simp
    then have "form_step (d3, st3) (d4, st4)"
      using form_step.settle [of q0 st3 d3 "Response 500"] ids 4 by simp
    ultimately show ?thesis by (meson converse_rtranclp_into_rtranclp rtranclp.rtrancl_refl)
  qed
  have "s \<noteq> e" using assms(1-3) by (simp add: form_wf_def)
  then have "shown d4 (successMessage st) \<and> shown d4 (errorMessage st)"
    using assms(2-5) m2(3) by (simp add: d4 d3 shown_set_display)
  with 1 2 3 4 p2 ids steps show ?thesis by auto
qed

theorem concurrent_both_shown_witness:
  "\<exists>d1 st1 d2 st2 d3 st3 d4 st4.
    form_submit contact_doc contact_form0 = (True, d1, st1) \<and> form_submit d1 st1 = (True, d2, st2) \<and>
    map req_id (pending st2) = [next_req contact_form0, Suc (next_req contact_form0)] \<and>
    form_settle d2 st2 (Suc (next_req contact_form0)) (Response 200) = (d3, st3) \<and>
    form_settle d3 st3 (next_req contact_form0) (Response 500) = (d4, st4) \<and>
    form_step\<^sup>*\<^sup>* (contact_doc, contact_form0) (d4, st4) \<and>
    shown d4 (successMessage contact_form0) \<and> shown d4 (errorMessage contact_form0)"
  by (rule concurrent_both_shown [of _ _ 1 2]) (simp_all add: contact_simps)


text \<open>
  C6. On a page without a success message element, a successful response changes nothing
  but the list of requests in flight: no message is shown and the form is not reset, since
  \<^verbatim>\<open>this.reset()\<close> sits inside \<^verbatim>\<open>if (successMessage)\<close>.
\<close>

theorem form_settle_no_success_element:
  assumes "q \<in> set (pending st)" and "successMessage st = None" and "response_ok s"
  shows "form_settle d st (req_id q) (Response s) = (d, st\<lparr>pending := filter (\<lambda>x. req_id x \<noteq> req_id q) (pending st)\<rparr>)"
  using assms by (simp add: form_settle_ok)

theorem form_settle_no_success_element_witness:
  "form_settle [] \<lparr>form_action = ''/contact'', form_method = ''POST'',
      form_fields = [\<lparr>field_name = ''email'', field_value = ''a@b.c'', field_default = []\<rparr>],
      successMessage = None, errorMessage = None,
      pending = [\<lparr>req_id = 0, req_url = ''/contact'', req_method = ''POST'', req_headers = [], req_body = []\<rparr>],
      next_req = 1, console_log = []\<rparr> 0 (Response 200) =
   ([], \<lparr>form_action = ''/contact'', form_method = ''POST'',
      form_fields = [\<lparr>field_name = ''email'', field_value = ''a@b.c'', field_default = []\<rparr>],
      successMessage = None, errorMessage = None, pending = [], next_req = 1, console_log = []\<rparr>)"
  using form_settle_no_success_element [of
      "\<lparr>req_id = 0, req_url = ''/contact'', req_method = ''POST'', req_headers = [], req_body = []\<rparr>"
      "\<lparr>form_action = ''/contact'', form_method = ''POST'',
        form_fields = [\<lparr>field_name = ''email'', field_value = ''a@b.c'', field_default = []\<rparr>],
        successMessage = None, errorMessage = None,
        pending = [\<lparr>req_id = 0, req_url = ''/contact'', req_method = ''POST'', req_headers = [], req_body = []\<rparr>],
        next_req = 1, console_log = []\<rparr>" 200 "[]"]
  by (simp add: response_ok_def)

end
