(* ===== verification/Fade.thy ===== *)
theory Fade
  imports Dom
begin

text \<open>
  The Fade-In Observer of \<^verbatim>\<open>src/src/js/main.js\<close> (lines 121--142): the observer's
  options, the callback it runs on a batch of intersection entries, and the set-up at
  \<^verbatim>\<open>DOMContentLoaded\<close> that hides every animated element and registers it. The browser's
  \<^verbatim>\<open>IntersectionObserver\<close> decides when to deliver a batch; here a batch is an input,
  an entry carrying its target, \<^verbatim>\<open>isIntersecting\<close> and \<^verbatim>\<open>intersectionRatio\<close>.
\<close>

section \<open>Definitions\<close>

record observer_options =
  threshold :: real
  rootMargin :: string

definition observerOptions :: observer_options where
  "observerOptions = \<lparr>threshold = 1 / 10, rootMargin = ''0px 0px -50px 0px''\<rparr>"

record io_entry =
  target :: nat
  isIntersecting :: bool
  intersectionRatio :: real

text \<open>The selector list of line 136, one class per alternative.\<close>

definition animated_classes :: "string list" where
  "animated_classes = [''service-card'', ''potential-card1'', ''hero-heading'', ''hero-details'', ''hero-button'']"

definition is_animated :: "element \<Rightarrow> bool" where
  "is_animated e = list_ex (class_contains (class_list e)) animated_classes"

text \<open>The two style writes: the hidden state of the set-up and the revealed state of the callback.\<close>

definition hide_style :: "style \<Rightarrow> style" where
  "hide_style s = s\<lparr>opacity := ''0'', transform := ''translateY(20px)'',
                    transition := ''opacity 0.6s ease, transform 0.6s ease''\<rparr>"

definition reveal_style :: "style \<Rightarrow> style" where
  "reveal_style s = s\<lparr>opacity := ''1'', transform := ''translateY(0)''\<rparr>"

text \<open>The observer's callback: \<^verbatim>\<open>entries.forEach\<close>, revealing each intersecting target.\<close>

definition observer_callback :: "document \<Rightarrow> io_entry list \<Rightarrow> document" where
  "observer_callback d entries =
     fold (\<lambda>entry d. if isIntersecting entry then set_style d (target entry) reveal_style else d)
       entries d"

text \<open>
  The set-up: \<^verbatim>\<open>animatedElements.forEach\<close> hides each element and observes it. It
  returns the document and the list of observed elements.
\<close>

definition fade_init :: "document \<Rightarrow> document \<times> nat list" where
  "fade_init d =
     (let animatedElements = querySelectorAll d is_animated
      in (fold (\<lambda>el d. set_style d el hide_style) animatedElements d, animatedElements))"

text \<open>Whether a node shows as revealed.\<close>

definition revealed :: "document \<Rightarrow> nat \<Rightarrow> bool" where
  "revealed d i = (opacity (el_style (d ! i)) = ''1'' \<and> transform (el_style (d ! i)) = ''translateY(0)'')"

section \<open>Lemmas\<close>

lemma length_observer_callback [simp]: "length (observer_callback d es) = length d"
  by (induction es arbitrary: d) (simp_all add: observer_callback_def)

lemma observer_callback_Cons:
  "observer_callback d (e # es) =
     observer_callback (if isIntersecting e then set_style d (target e) reveal_style else d) es"
  by (simp add: observer_callback_def)

lemma reveal_style_idem [simp]: "reveal_style (reveal_style s) = reveal_style s"
  by (simp add: reveal_style_def)

lemma style_fold_nth:
  assumes "i < length d" and idem: "\<And>s. f (f s) = f s"
  shows "el_style (fold (\<lambda>el d. set_style d el f) xs d ! i) =
           (if i \<in> set xs then f (el_style (d ! i)) else el_style (d ! i))"
  using assms(1)
proof (induction xs arbitrary: d)
  case (Cons x xs)
  then show ?case
    by (auto simp: el_style_set_style idem)
qed simp

lemma hide_style_idem [simp]: "hide_style (hide_style s) = hide_style s"
  by (simp add: hide_style_def)

lemma fold_hide_nth:
  assumes "i < length d"
  shows "el_style (fold (\<lambda>el d. set_style d el hide_style) xs d ! i) =
           (if i \<in> set xs then hide_style (el_style (d ! i)) else el_style (d ! i))"
  using style_fold_nth [OF assms, of hide_style xs] by simp

lemma length_fade_init [simp]: "length (fst (fade_init d)) = length d"
proof -
  have "length (fold (\<lambda>el d. set_style d el hide_style) xs d) = length d" for xs
    by (induction xs arbitrary: d) simp_all
  then show ?thesis by (simp add: fade_init_def Let_def)
qed

lemma revealed_callback_keep:
  "i < length d \<Longrightarrow> revealed d i \<Longrightarrow> revealed (observer_callback d es) i"
proof (induction es arbitrary: d)
  case (Cons e es)
  have "revealed (if isIntersecting e then set_style d (target e) reveal_style else d) i"
    using Cons.prems by (auto simp: revealed_def el_style_set_style reveal_style_def)
  with Cons.prems Cons.IH show ?case
    by (simp add: observer_callback_Cons)
qed (simp add: observer_callback_def)

lemma revealed_callback_hit:
  assumes "i < length d" and "e \<in> set es" and "isIntersecting e" and "target e = i"
  shows "revealed (observer_callback d es) i"
  using assms
proof (induction es arbitrary: d)
  case (Cons e' es)
  show ?case
  proof (cases "e' = e")
    case True
    with Cons.prems have "revealed (set_style d i reveal_style) i"
      by (simp add: revealed_def el_style_set_style reveal_style_def)
    with True Cons.prems show ?thesis
      by (simp add: observer_callback_Cons revealed_callback_keep)
  next
    case False
    with Cons.prems Cons.IH show ?thesis
      by (simp add: observer_callback_Cons)
  qed
qed simp

section \<open>Properties\<close>

text \<open>
  C17. The set-up observes exactly the elements that carry one of the five marker
  classes, each once and in tree order, and leaves each of them hidden: opacity 0,
  displaced by 20 pixels, with the transition registered.
\<close>

theorem fade_init_hides:
  "set (snd (fade_init d)) = {i. i < length d \<and> is_animated (d ! i)} \<and>
   distinct (snd (fade_init d)) \<and> sorted (snd (fade_init d)) \<and>
   (\<forall>i \<in> set (snd (fade_init d)).
      opacity (el_style (fst (fade_init d) ! i)) = ''0'' \<and>
      transform (el_style (fst (fade_init d) ! i)) = ''translateY(20px)'' \<and>
      transition (el_style (fst (fade_init d) ! i)) = ''opacity 0.6s ease, transform 0.6s ease'')"
  by (auto simp: fade_init_def Let_def fold_hide_nth hide_style_def)

theorem fade_init_hides_witness:
  "opacity (el_style (fst (fade_init [\<lparr>tag = ''h1'', elem_id = None, class_list = [''hero-heading''],
      href_attr = None, offset_top = 0, el_style = empty_style\<rparr>]) ! 0)) = ''0''"
proof -
  let ?d = "[\<lparr>tag = ''h1'', elem_id = None, class_list = [''hero-heading''],
      href_attr = None, offset_top = 0, el_style = empty_style\<rparr>]"
  have "0 \<in> set (snd (fade_init ?d))"
    using fade_init_hides [of ?d]
    by (simp add: is_animated_def animated_classes_def class_contains_def)
  then show ?thesis
    using fade_init_hides [of ?d] by blast
qed

text \<open>
  C21. The set-up writes no node that is not animated.
\<close>

theorem fade_init_frame:
  "i < length d \<Longrightarrow> \<not> is_animated (d ! i) \<Longrightarrow> fst (fade_init d) ! i = d ! i"
proof -
  assume i: "i < length d" and n: "\<not> is_animated (d ! i)"
  have "fold (\<lambda>el d. set_style d el hide_style) xs d ! i = d ! i" if "i \<notin> set xs" for xs
    using that i
  proof (induction xs arbitrary: d)
    case (Cons x xs)
    then have "set_style d x hide_style ! i = d ! i"
      by (simp add: set_style_def nth_update_elem update_elem_def)
    with Cons show ?case by simp
  qed simp
  with i n show ?thesis by (simp add: fade_init_def Let_def)
qed

theorem fade_init_frame_witness:
  "fst (fade_init [\<lparr>tag = ''p'', elem_id = None, class_list = [''intro''],
      href_attr = None, offset_top = 0, el_style = empty_style\<rparr>]) ! 0 =
   \<lparr>tag = ''p'', elem_id = None, class_list = [''intro''],
      href_attr = None, offset_top = 0, el_style = empty_style\<rparr>"
  using fade_init_frame [of 0 "[\<lparr>tag = ''p'', elem_id = None, class_list = [''intro''],
      href_attr = None, offset_top = 0, el_style = empty_style\<rparr>]"]
  by (simp add: is_animated_def animated_classes_def class_contains_def)

text \<open>
  C18. The reveal is one-way: a node that is revealed stays revealed through any batch of
  entries, intersecting or not.
\<close>

theorem reveal_monotone:
  "i < length d \<Longrightarrow> revealed d i \<Longrightarrow> revealed (observer_callback d es) i"
  by (rule revealed_callback_keep)

theorem reveal_monotone_witness:
  "revealed (observer_callback [\<lparr>tag = ''div'', elem_id = None, class_list = [''service-card''],
      href_attr = None, offset_top = 0,
      el_style = \<lparr>opacity = ''1'', transform = ''translateY(0)'', transition = [], display = []\<rparr>\<rparr>]
      [\<lparr>target = 0, isIntersecting = False, intersectionRatio = 0\<rparr>]) 0"
  by (rule reveal_monotone) (simp_all add: revealed_def)

text \<open>
  C19. The callback reveals the target of any entry that reports \<^verbatim>\<open>isIntersecting\<close>,
  whatever its \<^verbatim>\<open>intersectionRatio\<close>: the 10\<percent> threshold of the options plays no part in
  the callback, so an entry delivered below it (the first notification after
  \<^verbatim>\<open>observe\<close> is delivered at any ratio) reveals the element.
\<close>

theorem callback_ignores_ratio:
  assumes "i < length d" and "r < threshold observerOptions"
  shows "revealed (observer_callback d [\<lparr>target = i, isIntersecting = True, intersectionRatio = r\<rparr>]) i"
  using assms by (intro revealed_callback_hit [of _ _ "\<lparr>target = i, isIntersecting = True, intersectionRatio = r\<rparr>"]) simp_all

theorem callback_ignores_ratio_witness:
  "revealed (observer_callback [\<lparr>tag = ''div'', elem_id = None, class_list = [''service-card''],
      href_attr = None, offset_top = 0, el_style = empty_style\<rparr>]
      [\<lparr>target = 0, isIntersecting = True, intersectionRatio = 1 / 20\<rparr>]) 0"
  by (rule callback_ignores_ratio) (simp_all add: observerOptions_def)

text \<open>
  C20. A batch in which no entry intersects changes nothing, and a batch changes no node
  that is not the target of one of its intersecting entries.
\<close>

theorem callback_frame:
  "(list_all (\<lambda>e. \<not> isIntersecting e) es \<longrightarrow> observer_callback d es = d) \<and>
   (\<forall>i. list_all (\<lambda>e. isIntersecting e \<longrightarrow> target e \<noteq> i) es \<longrightarrow> observer_callback d es ! i = d ! i)"
proof -
  have none: "list_all (\<lambda>e. \<not> isIntersecting e) es \<Longrightarrow> observer_callback d es = d" for d
    by (induction es arbitrary: d) (simp_all add: observer_callback_def)
  have other: "list_all (\<lambda>e. isIntersecting e \<longrightarrow> target e \<noteq> i) es \<Longrightarrow> observer_callback d es ! i = d ! i"
    for i d
  proof (induction es arbitrary: d)
    case (Cons e es)
    have "(if isIntersecting e then set_style d (target e) reveal_style else d) ! i = d ! i"
      using Cons.prems
      by (cases "i < length d") (auto simp: set_style_def nth_update_elem update_elem_def)
    with Cons show ?case
      by (simp add: observer_callback_Cons)
  qed (simp add: observer_callback_def)
  from none other show ?thesis by blast
qed

theorem callback_frame_witness:
  "observer_callback [\<lparr>tag = ''div'', elem_id = None, class_list = [''service-card''],
      href_attr = None, offset_top = 0, el_style = empty_style\<rparr>]
      [\<lparr>target = 0, isIntersecting = False, intersectionRatio = 0\<rparr>] =
   [\<lparr>tag = ''div'', elem_id = None, class_list = [''service-card''],
      href_attr = None, offset_top = 0, el_style = empty_style\<rparr>]"
  using callback_frame [of "[\<lparr>target = 0, isIntersecting = False, intersectionRatio = 0\<rparr>]"] by simp

end
