(* ===== verification/Navbar.thy ===== *)
theory Navbar
  imports Dom
begin

text \<open>
  The Navbar Scroll Styler of \<^verbatim>\<open>src/src/js/main.js\<close> (lines 145--158): the
  \<^verbatim>\<open>scroll\<close> listener and the two variables its closure captures, the navigation bar
  found once at \<^verbatim>\<open>DOMContentLoaded\<close> and \<^verbatim>\<open>lastScroll\<close>. A scroll event carries the
  window's \<^verbatim>\<open>pageYOffset\<close>, a real number of CSS pixels (browsers report fractional
  offsets). \<^verbatim>\<open>lastScroll\<close> is written by every event and read by none.
\<close>

section \<open>Definitions\<close>

record navbar_state =
  navbar :: "nat option"
  lastScroll :: real

text \<open>
  \<^verbatim>\<open>let lastScroll = 0; const navbar = document.querySelector('.navbar--top-section')\<close>.
\<close>

definition navbar_init :: "document \<Rightarrow> navbar_state" where
  "navbar_init d = \<lparr>navbar = querySelector_class d ''navbar--top-section'', lastScroll = 0\<rparr>"

text \<open>
  The listener: above 100 pixels \<^verbatim>\<open>navbar?.classList.add('scrolled')\<close>, otherwise
  \<^verbatim>\<open>navbar?.classList.remove('scrolled')\<close>; the optional chaining skips both when there
  is no navigation bar.
\<close>

definition navbar_scroll :: "document \<Rightarrow> navbar_state \<Rightarrow> real \<Rightarrow> document \<times> navbar_state" where
  "navbar_scroll d st currentScroll =
     (let d' = (if currentScroll > 100
                then (case navbar st of None \<Rightarrow> d | Some n \<Rightarrow> set_classes d n (\<lambda>cl. class_add cl ''scrolled''))
                else (case navbar st of None \<Rightarrow> d | Some n \<Rightarrow> set_classes d n (\<lambda>cl. class_remove cl ''scrolled'')))
      in (d', st\<lparr>lastScroll := currentScroll\<rparr>))"

text \<open>A sequence of scroll events, delivered in order.\<close>

fun navbar_run :: "document \<Rightarrow> navbar_state \<Rightarrow> real list \<Rightarrow> document \<times> navbar_state" where
  "navbar_run d st [] = (d, st)"
| "navbar_run d st (y # ys) = (let (d', st') = navbar_scroll d st y in navbar_run d' st' ys)"

text \<open>Whether the node at position \<open>n\<close> carries the marker class.\<close>

definition scrolled_marker :: "document \<Rightarrow> nat \<Rightarrow> bool" where
  "scrolled_marker d n = class_contains (class_list (d ! n)) ''scrolled''"

section \<open>Lemmas\<close>

lemma navbar_scroll_state [simp]:
  "snd (navbar_scroll d st y) = st\<lparr>lastScroll := y\<rparr>"
  by (simp add: navbar_scroll_def Let_def)

lemma navbar_scroll_doc_Some:
  "navbar st = Some n \<Longrightarrow>
   fst (navbar_scroll d st y) =
     set_classes d n (\<lambda>cl. if y > 100 then class_add cl ''scrolled'' else class_remove cl ''scrolled'')"
  by (simp add: navbar_scroll_def Let_def set_classes_def)

lemma navbar_scroll_doc_None [simp]:
  "navbar st = None \<Longrightarrow> fst (navbar_scroll d st y) = d"
  by (simp add: navbar_scroll_def Let_def)

lemma length_navbar_scroll [simp]: "length (fst (navbar_scroll d st y)) = length d"
  by (cases "navbar st") (simp_all add: navbar_scroll_doc_Some)

lemma navbar_navbar_run [simp]: "navbar (snd (navbar_run d st ys)) = navbar st"
  by (induction ys arbitrary: d st) (simp_all add: split_def)

lemma length_navbar_run [simp]: "length (fst (navbar_run d st ys)) = length d"
  by (induction ys arbitrary: d st) (simp_all add: split_def)

lemma scrolled_marker_scroll:
  assumes "navbar st = Some n" and "n < length d"
  shows "scrolled_marker (fst (navbar_scroll d st y)) n \<longleftrightarrow> y > 100"
  using assms by (simp add: navbar_scroll_doc_Some scrolled_marker_def class_list_set_classes)

lemma navbar_scroll_frame:
  assumes "navbar st = Some n" and "m \<noteq> n"
  shows "fst (navbar_scroll d st y) ! m = d ! m"
proof (cases "m < length d")
  case True
  with assms show ?thesis
    by (simp add: navbar_scroll_doc_Some set_classes_def nth_update_elem)
qed (use assms in \<open>simp add: navbar_scroll_doc_Some set_classes_def update_elem_def\<close>)

section \<open>Properties\<close>

text \<open>
  C22. Level-triggered: after a scroll event, the navigation bar carries \<^verbatim>\<open>scrolled\<close>
  exactly when the event's offset is above 100 pixels, whatever it carried before.
\<close>

theorem navbar_scroll_level:
  assumes "navbar st = Some n" and "n < length d"
  shows "scrolled_marker (fst (navbar_scroll d st y)) n \<longleftrightarrow> y > 100"
  using assms by (simp add: navbar_scroll_def Let_def scrolled_marker_def class_list_set_classes)

theorem navbar_scroll_level_witness:
  "navbar \<lparr>navbar = Some 0, lastScroll = 0\<rparr> = Some 0 \<and>
   (0::nat) < length [\<lparr>tag = ''nav'', elem_id = None, class_list = [''navbar--top-section''],
      href_attr = None, offset_top = 0, el_style = empty_style\<rparr>] \<and>
   scrolled_marker (fst (navbar_scroll [\<lparr>tag = ''nav'', elem_id = None,
      class_list = [''navbar--top-section''], href_attr = None, offset_top = 0,
      el_style = empty_style\<rparr>] \<lparr>navbar = Some 0, lastScroll = 0\<rparr> 250)) 0"
  using navbar_scroll_level [of "\<lparr>navbar = Some 0, lastScroll = 0\<rparr>" 0
      "[\<lparr>tag = ''nav'', elem_id = None, class_list = [''navbar--top-section''],
         href_attr = None, offset_top = 0, el_style = empty_style\<rparr>]" 250]
  by simp

text \<open>
  C23. No flicker: a second event on the same side of the threshold leaves the document
  as the first one left it, so repeating an event is idempotent.
\<close>

theorem navbar_scroll_idempotent:
  assumes "y > 100 \<longleftrightarrow> y' > 100"
  shows "fst (navbar_scroll (fst (navbar_scroll d st y)) (snd (navbar_scroll d st y)) y') =
         fst (navbar_scroll d st y)"
proof (cases "navbar st")
  case (Some n)
  with assms show ?thesis
    by (cases "y' > 100") (simp_all add: navbar_scroll_doc_Some set_classes_def update_elem_twice comp_def)
qed simp

theorem navbar_scroll_idempotent_witness:
  "fst (navbar_scroll (fst (navbar_scroll [\<lparr>tag = ''nav'', elem_id = None, class_list = [''navbar--top-section''], href_attr = None,
      offset_top = 0, el_style = empty_style\<rparr>] \<lparr>navbar = Some 0, lastScroll = 0\<rparr> 120))
      (snd (navbar_scroll [\<lparr>tag = ''nav'', elem_id = None, class_list = [''navbar--top-section''], href_attr = None,
      offset_top = 0, el_style = empty_style\<rparr>] \<lparr>navbar = Some 0, lastScroll = 0\<rparr> 120)) 300) =
   fst (navbar_scroll [\<lparr>tag = ''nav'', elem_id = None, class_list = [''navbar--top-section''], href_attr = None,
      offset_top = 0, el_style = empty_style\<rparr>] \<lparr>navbar = Some 0, lastScroll = 0\<rparr> 120)"
  using navbar_scroll_idempotent [of 120 300 "[\<lparr>tag = ''nav'', elem_id = None, class_list = [''navbar--top-section''], href_attr = None,
      offset_top = 0, el_style = empty_style\<rparr>]" "\<lparr>navbar = Some 0, lastScroll = 0\<rparr>"]
  by simp

text \<open>
  C24. Over any non-empty sequence of scroll events, the marker reflects the last event
  only, and \<^verbatim>\<open>lastScroll\<close> holds the last offset.
\<close>

theorem navbar_run_last:
  assumes "navbar st = Some n" and "n < length d" and "ys \<noteq> []"
  shows "(scrolled_marker (fst (navbar_run d st ys)) n \<longleftrightarrow> last ys > 100) \<and>
         lastScroll (snd (navbar_run d st ys)) = last ys"
  using assms
proof (induction ys arbitrary: d st)
  case (Cons y ys)
  show ?case
  proof (cases ys)
    case Nil
    with Cons.prems show ?thesis
      by (simp add: split_def scrolled_marker_scroll)
  next
    case (Cons y' ys')
    let ?d = "fst (navbar_scroll d st y)" and ?st = "snd (navbar_scroll d st y)"
    have "navbar ?st = Some n" and "n < length ?d"
      using Cons.prems by simp_all
    with Cons.IH [of ?st ?d] Cons show ?thesis
      by (simp add: split_def)
  qed
qed simp

theorem navbar_run_last_witness:
  "(scrolled_marker (fst (navbar_run [\<lparr>tag = ''nav'', elem_id = None,
      class_list = [''navbar--top-section''], href_attr = None, offset_top = 0,
      el_style = empty_style\<rparr>] \<lparr>navbar = Some 0, lastScroll = 0\<rparr> [50, 400, 99.5])) 0
     \<longleftrightarrow> False) \<and>
   lastScroll (snd (navbar_run [\<lparr>tag = ''nav'', elem_id = None,
      class_list = [''navbar--top-section''], href_attr = None, offset_top = 0,
      el_style = empty_style\<rparr>] \<lparr>navbar = Some 0, lastScroll = 0\<rparr> [50, 400, 99.5])) = 99.5"
  using navbar_run_last [of "\<lparr>navbar = Some 0, lastScroll = 0\<rparr>" 0
      "[\<lparr>tag = ''nav'', elem_id = None, class_list = [''navbar--top-section''],
         href_attr = None, offset_top = 0, el_style = empty_style\<rparr>]" "[50, 400, 99.5]"]
  by simp

text \<open>
  C25. Without a navigation bar the listener changes no node, and with one it changes no
  other node than the bar.
\<close>

theorem navbar_scroll_frame_nodes:
  "(navbar st = None \<longrightarrow> fst (navbar_scroll d st y) = d) \<and>
   (\<forall>n m. navbar st = Some n \<and> m \<noteq> n \<longrightarrow> fst (navbar_scroll d st y) ! m = d ! m)"
  by (auto simp: navbar_scroll_frame)

theorem navbar_scroll_frame_nodes_witness:
  "fst (navbar_scroll [\<lparr>tag = ''a'', elem_id = None, class_list = [], href_attr = None,
      offset_top = 0, el_style = empty_style\<rparr>] \<lparr>navbar = None, lastScroll = 0\<rparr> 500) =
   [\<lparr>tag = ''a'', elem_id = None, class_list = [], href_attr = None,
      offset_top = 0, el_style = empty_style\<rparr>]"
  using navbar_scroll_frame_nodes [of "\<lparr>navbar = None, lastScroll = 0\<rparr>"] by simp

end
