(* ===== verification/Page.thy ===== *)
theory Page
  imports Language Anchor Form Fade Navbar
begin

text \<open>
  The Page Controller of \<^verbatim>\<open>src/src/js/main.js\<close>: the \<^verbatim>\<open>DOMContentLoaded\<close> listener
  (lines 30--159) that wires the five behaviours into one page, and the page as the
  browser's event loop drives it. The page state holds the window's location, the
  document, what the set-up captured (the switchers, the links, the form's closure, the
  observed elements, the navigation bar's closure), the last \<^verbatim>\<open>scrollTo\<close> request, the
  URL of the latest cross-document navigation a handler has started, and the exceptions
  that escaped a handler. One event runs one handler to completion; the order of events
  is arbitrary, so every property below is stated over all event sequences. Starting a
  navigation does not stop the page: the document keeps receiving events (a response
  in flight, a scroll) until the browser replaces it, which is the end of a sequence.
\<close>

section \<open>Definitions\<close>

record page =
  loc :: location
  doc :: document
  switchers :: "nat list"
  links :: "nat list"
  form :: "form_state option"
  observed :: "nat list"
  nav :: navbar_state
  scroll_req :: "scroll_options option"
  navigated :: "string option"
  uncaught :: "js_error list"

text \<open>
  The browser events that reach a handler: a click on a node, a submission of the
  contact form, the settling of request \<open>rid\<close>, a scroll to an offset, and a batch of
  intersection entries.
\<close>

datatype page_event =
    Click nat
  | SubmitForm
  | Settle nat fetch_result
  | Scroll real
  | Intersect "io_entry list"

text \<open>
  The \<^verbatim>\<open>DOMContentLoaded\<close> listener. The form's \<^verbatim>\<open>action\<close>, its \<^verbatim>\<open>method\<close> attribute and its
  controls are not part of the element model and come as arguments. Only the fade-in
  set-up writes to the document.
\<close>

definition dom_content_loaded ::
  "location \<Rightarrow> document \<Rightarrow> string \<Rightarrow> string \<Rightarrow> field list \<Rightarrow> page" where
  "dom_content_loaded l d action method fs =
     (let languageSwitchers = querySelectorAll d (\<lambda>e. class_contains (class_list e) ''language-switcher'');
          navLinks = nav_links d;
          contactForm = getElementById d ''contact-form'';
          frm = (case contactForm of None \<Rightarrow> None | Some _ \<Rightarrow> Some (form_init d action method fs));
          (d1, animatedElements) = fade_init d
      in \<lparr>loc = l, doc = d1, switchers = languageSwitchers, links = navLinks, form = frm,
          observed = animatedElements, nav = navbar_init d, scroll_req = None, navigated = None,
          uncaught = []\<rparr>)"

text \<open>
  The browser's reaction to \<^verbatim>\<open>window.location.href = url\<close> (HTML, \<^emph>\<open>navigate\<close>): a
  URL that equals the current one up to its fragment and has a fragment is a navigation
  to a fragment within the same document, which only updates the location; any other URL
  starts a navigation to a new document, recorded in \<open>navigated\<close>. The current URL is
  taken to have no query, as the location record has none. Scrolling to the fragment is
  a default action of the browser and is not modelled.
\<close>

definition navigate :: "page \<Rightarrow> string \<Rightarrow> page" where
  "navigate p url =
     (if takeWhile (\<lambda>c. c \<noteq> CHR ''#'') url = pathname (loc p) \<and> CHR ''#'' \<in> set url
      then p\<lparr>loc := url_location url\<rparr>
      else p\<lparr>navigated := Some url\<rparr>)"

text \<open>
  A click runs the listeners of the clicked node in the order they were added: the
  switcher's, then the scrolling link's. An exception ends its listener and is reported.
\<close>

definition page_click :: "page \<Rightarrow> nat \<Rightarrow> page" where
  "page_click p i =
     (let p1 = (if i \<in> set (switchers p) then
                  (case snd (switcher_click (loc p) (href_attr (doc p ! i))) of
                     Inl e \<Rightarrow> p\<lparr>uncaught := uncaught p @ [e]\<rparr>
                   | Inr url \<Rightarrow> navigate p url)
                else p)
      in if i \<in> set (links p1) then
           (case snd (nav_link_click (doc p1) (href_attr (doc p1 ! i))) of
              Inl e \<Rightarrow> p1\<lparr>uncaught := uncaught p1 @ [e]\<rparr>
            | Inr None \<Rightarrow> p1
            | Inr (Some opts) \<Rightarrow> p1\<lparr>scroll_req := Some opts\<rparr>)
         else p1)"

text \<open>
  One event, dispatched to the listeners the set-up installed. The observer reports
  entries for observed nodes only.
\<close>

definition page_step :: "page \<Rightarrow> page_event \<Rightarrow> page" where
  "page_step p ev =
     (case ev of
        Click i \<Rightarrow> page_click p i
      | SubmitForm \<Rightarrow>
          (case form p of
             None \<Rightarrow> p
           | Some st \<Rightarrow> (case form_submit (doc p) st of (_, d', st') \<Rightarrow> p\<lparr>doc := d', form := Some st'\<rparr>))
      | Settle rid r \<Rightarrow>
          (case form p of
             None \<Rightarrow> p
           | Some st \<Rightarrow> (case form_settle (doc p) st rid r of (d', st') \<Rightarrow> p\<lparr>doc := d', form := Some st'\<rparr>))
      | Scroll y \<Rightarrow> (case navbar_scroll (doc p) (nav p) y of (d', nv) \<Rightarrow> p\<lparr>doc := d', nav := nv\<rparr>)
      | Intersect es \<Rightarrow>
          p\<lparr>doc := observer_callback (doc p) (filter (\<lambda>en. target en \<in> set (observed p)) es)\<rparr>)"

fun page_run :: "page \<Rightarrow> page_event list \<Rightarrow> page" where
  "page_run p [] = p"
| "page_run p (e # es) = page_run (page_step p e) es"

text \<open>The offsets of the scroll events of a sequence, in order.\<close>

fun scroll_offsets :: "page_event list \<Rightarrow> real list" where
  "scroll_offsets [] = []"
| "scroll_offsets (Scroll y # es) = y # scroll_offsets es"
| "scroll_offsets (_ # es) = scroll_offsets es"

text \<open>
  One submission at a time: every submission of the sequence happens while no request
  of the form is in flight.
\<close>

fun one_at_a_time :: "page \<Rightarrow> page_event list \<Rightarrow> bool" where
  "one_at_a_time p [] = True"
| "one_at_a_time p (e # es) =
     ((e \<noteq> SubmitForm \<or> (case form p of None \<Rightarrow> True | Some st \<Rightarrow> pending st = [])) \<and>
      one_at_a_time (page_step p e) es)"


text \<open>A sample page: navigation bar, a switcher, a same-page link and its target, an animated card, the form and its two messages.\<close>

definition sample_doc :: document where
  "sample_doc =
     [\<lparr>tag = ''nav'', elem_id = None, class_list = [''navbar--top-section''], href_attr = None,
       offset_top = 0, el_style = empty_style\<rparr>,
      \<lparr>tag = ''a'', elem_id = None, class_list = [''language-switcher''], href_attr = Some ''/he/'',
       offset_top = 0, el_style = empty_style\<rparr>,
      \<lparr>tag = ''a'', elem_id = None, class_list = [], href_attr = Some ''#services'',
       offset_top = 0, el_style = empty_style\<rparr>,
      \<lparr>tag = ''section'', elem_id = Some ''services'', class_list = [], href_attr = None,
       offset_top = 600, el_style = empty_style\<rparr>,
      \<lparr>tag = ''div'', elem_id = None, class_list = [''service-card''], href_attr = None,
       offset_top = 700, el_style = empty_style\<rparr>,
      \<lparr>tag = ''form'', elem_id = Some ''contact-form'', class_list = [], href_attr = None,
       offset_top = 900, el_style = empty_style\<rparr>,
      \<lparr>tag = ''div'', elem_id = None, class_list = [''success-message''], href_attr = None,
       offset_top = 1200, el_style = empty_style\<rparr>,
      \<lparr>tag = ''div'', elem_id = None, class_list = [''error-message''], href_attr = None,
       offset_top = 1250, el_style = empty_style\<rparr>]"

definition sample_page :: page where
  "sample_page =
     dom_content_loaded \<lparr>pathname = ''/'', hash = []\<rparr> sample_doc ''https://example.org/contact'' ''POST''
       [\<lparr>field_name = ''email'', field_value = ''a@b.c'', field_default = []\<rparr>]"

section \<open>Lemmas\<close>

lemma navigate_frame [simp]:
  "doc (navigate p url) = doc p" "form (navigate p url) = form p" "nav (navigate p url) = nav p"
  "switchers (navigate p url) = switchers p" "links (navigate p url) = links p"
  "observed (navigate p url) = observed p"
  by (simp_all add: navigate_def)

lemma page_click_frame:
  "doc (page_click p i) = doc p \<and> form (page_click p i) = form p \<and> nav (page_click p i) = nav p \<and>
   switchers (page_click p i) = switchers p \<and> links (page_click p i) = links p \<and>
   observed (page_click p i) = observed p"
  by (auto simp: page_click_def Let_def split: sum.splits option.splits)

lemma observer_callback_static:
  assumes "n < length d"
  shows "class_list (observer_callback d es ! n) = class_list (d ! n) \<and>
         display_of (observer_callback d es) n = display_of d n"
  using assms
proof (induction es arbitrary: d)
  case (Cons e es)
  then show ?case
    by (auto simp: observer_callback_Cons el_style_set_style reveal_style_def display_of_def)
qed (simp add: observer_callback_def)

lemma set_display_style:
  "n < length d \<Longrightarrow>
   opacity (el_style (set_display d m v ! n)) = opacity (el_style (d ! n)) \<and>
   transform (el_style (set_display d m v ! n)) = transform (el_style (d ! n)) \<and>
   class_list (set_display d m v ! n) = class_list (d ! n)"
  by (auto simp: set_display_def el_style_set_style split: option.splits)

lemma form_settle_doc:
  "fst (form_settle d st rid r) = d \<or> (\<exists>m v. fst (form_settle d st rid r) = set_display d m v)"
  by (auto simp: form_settle_def Let_def split: sum.splits option.splits)

lemma page_step_static:
  "switchers (page_step p e) = switchers p \<and> links (page_step p e) = links p \<and>
   observed (page_step p e) = observed p \<and> navbar (nav (page_step p e)) = navbar (nav p) \<and>
   length (doc (page_step p e)) = length (doc p)"
  by (cases e) (auto simp: page_step_def page_click_frame split_def form_submit_eq split: option.splits)


lemma form_settle_style:
  "n < length d \<Longrightarrow>
   opacity (el_style (fst (form_settle d st rid r) ! n)) = opacity (el_style (d ! n)) \<and>
   transform (el_style (fst (form_settle d st rid r) ! n)) = transform (el_style (d ! n)) \<and>
   class_list (fst (form_settle d st rid r) ! n) = class_list (d ! n)"
  using form_settle_doc [of d st rid r] set_display_style by fastforce

lemma form_submit_style:
  "n < length d \<Longrightarrow>
   opacity (el_style (fst (snd (form_submit d st)) ! n)) = opacity (el_style (d ! n)) \<and>
   transform (el_style (fst (snd (form_submit d st)) ! n)) = transform (el_style (d ! n)) \<and>
   class_list (fst (snd (form_submit d st)) ! n) = class_list (d ! n)"
  by (simp add: form_submit_eq set_display_style)

lemma page_step_classes:
  assumes "\<forall>y. e \<noteq> Scroll y" and "n < length (doc p)"
  shows "class_list (doc (page_step p e) ! n) = class_list (doc p ! n)"
  using assms
  by (cases e) (auto simp: page_step_def page_click_frame split_def form_submit_style form_settle_style
      observer_callback_static split: option.splits)

lemma page_step_revealed:
  assumes "n < length (doc p)" and "revealed (doc p) n"
  shows "revealed (doc (page_step p e)) n"
proof (cases e)
  case (Intersect es)
  with assms show ?thesis
    by (simp add: page_step_def revealed_callback_keep)
qed (use assms in \<open>auto simp: page_step_def page_click_frame split_def form_submit_style
    form_settle_style revealed_def navbar_scroll_def Let_def set_classes_def nth_update_elem
    split: option.splits\<close>)

lemma page_run_marker:
  assumes "navbar (nav p) = Some n" and "n < length (doc p)"
  shows "scrolled_marker (doc (page_run p evs)) n =
           (if scroll_offsets evs = [] then scrolled_marker (doc p) n else last (scroll_offsets evs) > 100)"
  using assms
proof (induction evs arbitrary: p)
  case (Cons e es)
  let ?p = "page_step p e"
  have nav: "navbar (nav ?p) = Some n" and len: "n < length (doc ?p)"
    using Cons.prems page_step_static [of p e] by simp_all
  have IH: "scrolled_marker (doc (page_run ?p es)) n =
      (if scroll_offsets es = [] then scrolled_marker (doc ?p) n else last (scroll_offsets es) > 100)"
    using Cons.IH [OF nav len] by simp
  show ?case
  proof (cases "\<exists>y. e = Scroll y")
    case True
    then obtain y where y: "e = Scroll y" by blast
    have "scrolled_marker (doc ?p) n \<longleftrightarrow> y > 100"
      using Cons.prems y
      by (simp add: page_step_def split_def scrolled_marker_scroll)
    with IH y show ?thesis by simp
  next
    case False
    then have "scrolled_marker (doc ?p) n = scrolled_marker (doc p) n"
      using page_step_classes [of e n p] Cons.prems(2) by (simp add: scrolled_marker_def)
    with IH False show ?thesis
      by (cases e) simp_all
  qed
qed simp

lemma display_of_observer_callback [simp]:
  "display_of (observer_callback d es) i = display_of d i"
  using observer_callback_static [of i d es] by (cases "i < length d") (simp_all add: display_of_def)

lemma display_of_navbar_scroll [simp]:
  "display_of (fst (navbar_scroll d st y)) i = display_of d i"
  by (cases "navbar st") (simp_all add: navbar_scroll_doc_Some)

lemma page_step_form_cases:
  assumes "form p = Some st"
  shows "\<exists>st'. form (page_step p e) = Some st' \<and>
           ((e = SubmitForm \<and> snd (form_submit (doc p) st) = (doc (page_step p e), st')) \<or>
            (\<exists>q r. q \<in> set (pending st) \<and> form_settle (doc p) st (req_id q) r = (doc (page_step p e), st')) \<or>
            (st' = st \<and> (\<forall>i. display_of (doc (page_step p e)) i = display_of (doc p) i)))"
proof (cases e)
  case (Settle rid r)
  show ?thesis
  proof (cases "rid \<in> req_id ` set (pending st)")
    case True
    then obtain q where "q \<in> set (pending st)" and "rid = req_id q" by blast
    with Settle assms show ?thesis
      by (auto simp: page_step_def split_def)
  next
    case False
    with Settle assms show ?thesis
      by (simp add: page_step_def split_def)
  qed
qed (use assms in \<open>auto simp: page_step_def split_def page_click_frame\<close>)

lemma shown_display_cong:
  "(\<forall>i. display_of d' i = display_of d i) \<Longrightarrow> shown d' m = shown d m"
  by (simp add: shown_def split: option.splits)

lemma page_step_form_inv:
  assumes "form p = Some st" and "form_wf (doc p) st" and "form_inv (doc p, st)"
    and "e \<noteq> SubmitForm \<or> pending st = []"
  shows "\<exists>st'. form (page_step p e) = Some st' \<and> form_wf (doc (page_step p e)) st' \<and>
           form_inv (doc (page_step p e), st')"
proof -
  obtain st' where f: "form (page_step p e) = Some st'" and c:
    "(e = SubmitForm \<and> snd (form_submit (doc p) st) = (doc (page_step p e), st')) \<or>
     (\<exists>q r. q \<in> set (pending st) \<and> form_settle (doc p) st (req_id q) r = (doc (page_step p e), st')) \<or>
     (st' = st \<and> (\<forall>i. display_of (doc (page_step p e)) i = display_of (doc p) i))"
    using page_step_form_cases [OF assms(1)] by blast
  from c have "seq_step (doc p, st) (doc (page_step p e), st') \<or>
      st' = st \<and> (\<forall>i. display_of (doc (page_step p e)) i = display_of (doc p) i)"
  proof (elim disjE exE conjE)
    assume "e = SubmitForm" and "snd (form_submit (doc p) st) = (doc (page_step p e), st')"
    with assms(4) show ?thesis
      by (metis seq_step.submit prod.collapse)
  next
    fix q r
    assume "q \<in> set (pending st)" and "form_settle (doc p) st (req_id q) r = (doc (page_step p e), st')"
    then show ?thesis by (metis seq_step.settle)
  qed simp
  then show ?thesis
  proof
    assume s: "seq_step (doc p, st) (doc (page_step p e), st')"
    then have "form_inv (doc (page_step p e), st')"
      using seq_step_inv assms(2,3) by fastforce
    moreover have "form_wf (doc (page_step p e)) st'"
      using form_step_msgs [OF seq_step_form_step [OF s]] assms(2) by (simp add: form_wf_def)
    ultimately show ?thesis using f by blast
  next
    assume a: "st' = st \<and> (\<forall>i. display_of (doc (page_step p e)) i = display_of (doc p) i)"
    then have "shown (doc (page_step p e)) m = shown (doc p) m" for m
      by (simp add: shown_display_cong)
    with a f assms(2,3) show ?thesis
      by (simp add: form_inv_def form_wf_def)
  qed
qed

lemma sample_page_facts:
  "navbar (nav sample_page) = Some 0" "length (doc sample_page) = 8"
  "switchers sample_page = [1]" "links sample_page = [2]" "observed sample_page = [4]"
  by (simp_all add: sample_page_def dom_content_loaded_def sample_doc_def navbar_init_def
      querySelector_class_def class_contains_def fade_init_def querySelectorAll_def is_animated_def
      animated_classes_def nav_links_def is_hash_anchor_def split_def Let_def upt_rec)

lemma sample_page_form:
  "form sample_page = Some (form_init sample_doc ''https://example.org/contact'' ''POST''
       [\<lparr>field_name = ''email'', field_value = ''a@b.c'', field_default = []\<rparr>])"
  "successMessage (the (form sample_page)) = Some 6" "errorMessage (the (form sample_page)) = Some 7"
  "pending (the (form sample_page)) = []"
  "\<not> shown (doc sample_page) (Some 6)" "\<not> shown (doc sample_page) (Some 7)"
  by (simp_all add: sample_page_def dom_content_loaded_def sample_doc_def getElementById_def form_init_def
      querySelector_class_def class_contains_def fade_init_def querySelectorAll_def is_animated_def
      animated_classes_def split_def Let_def upt_rec shown_def display_of_def set_style_def
      update_elem_def hide_style_def empty_style_def)

section \<open>Properties\<close>

text \<open>
  C26. Set-up: the form's handler is installed exactly when an element has id
  \<^verbatim>\<open>contact-form\<close>, with no request in flight and the first message elements of each
  class; nothing is navigated, requested or thrown; the document is the one the fade-in
  set-up leaves; the observed nodes are the animated ones; and no node receives both the
  switcher's and the scrolling link's click listener.
\<close>

theorem dom_content_loaded_init:
  "(form (dom_content_loaded l d a m fs) = None \<longleftrightarrow> getElementById d ''contact-form'' = None) \<and>
   navigated (dom_content_loaded l d a m fs) = None \<and> scroll_req (dom_content_loaded l d a m fs) = None \<and>
   uncaught (dom_content_loaded l d a m fs) = [] \<and>
   doc (dom_content_loaded l d a m fs) = fst (fade_init d) \<and>
   set (observed (dom_content_loaded l d a m fs)) = {i. i < length d \<and> is_animated (d ! i)} \<and>
   set (switchers (dom_content_loaded l d a m fs)) \<inter> set (links (dom_content_loaded l d a m fs)) = {} \<and>
   (case form (dom_content_loaded l d a m fs) of
      None \<Rightarrow> True
    | Some st \<Rightarrow> pending st = [] \<and> form_fields st = fs \<and>
        successMessage st = querySelector_class d ''success-message'' \<and>
        errorMessage st = querySelector_class d ''error-message'')"
  by (auto simp: dom_content_loaded_def Let_def split_def fade_init_def form_init_def nav_links_def
      split: option.splits)

text \<open>
  C27. Refinement: on the page, every event either performs a step of the form's own step
  relation on the document and the form's state, or leaves the form's state and every
  node's inline display as they were. Whatever the other handlers do, the form behaves as
  the form component alone.
\<close>

theorem page_form_refines:
  assumes "form p = Some st"
  shows "\<exists>st'. form (page_step p e) = Some st' \<and>
           (form_step (doc p, st) (doc (page_step p e), st') \<or>
            st' = st \<and> (\<forall>i. display_of (doc (page_step p e)) i = display_of (doc p) i))"
proof -
  obtain st' where f: "form (page_step p e) = Some st'" and c:
    "(e = SubmitForm \<and> snd (form_submit (doc p) st) = (doc (page_step p e), st')) \<or>
     (\<exists>q r. q \<in> set (pending st) \<and> form_settle (doc p) st (req_id q) r = (doc (page_step p e), st')) \<or>
     (st' = st \<and> (\<forall>i. display_of (doc (page_step p e)) i = display_of (doc p) i))"
    using page_step_form_cases [OF assms] by blast
  from c have "form_step (doc p, st) (doc (page_step p e), st') \<or>
      st' = st \<and> (\<forall>i. display_of (doc (page_step p e)) i = display_of (doc p) i)"
  proof (elim disjE exE conjE)
    assume "snd (form_submit (doc p) st) = (doc (page_step p e), st')"
    then show ?thesis
      by (metis form_step.submit prod.collapse)
  next
    fix q r
    assume "q \<in> set (pending st)" and "form_settle (doc p) st (req_id q) r = (doc (page_step p e), st')"
    then show ?thesis by (metis form_step.settle)
  qed simp
  with f show ?thesis by blast
qed

theorem page_form_refines_witness:
  "\<exists>st'. form (page_step sample_page SubmitForm) = Some st' \<and>
     (form_step (doc sample_page, the (form sample_page)) (doc (page_step sample_page SubmitForm), st') \<or>
      st' = the (form sample_page) \<and>
      (\<forall>i. display_of (doc (page_step sample_page SubmitForm)) i = display_of (doc sample_page) i))"
  using page_form_refines [of sample_page "the (form sample_page)" SubmitForm]
  by (simp add: sample_page_form(1))

text \<open>
  C28. With one submission at a time, the two messages are never shown together on the
  page, whatever clicks, scrolls and intersection batches are interleaved with the
  submissions and responses.
\<close>

theorem page_messages_exclusive:
  assumes "form p = Some st" and "form_wf (doc p) st" and "pending st = []"
    and "\<not> shown (doc p) (successMessage st)" and "\<not> shown (doc p) (errorMessage st)"
    and "one_at_a_time p evs"
  shows "\<exists>st'. form (page_run p evs) = Some st' \<and>
           \<not> (shown (doc (page_run p evs)) (successMessage st') \<and> shown (doc (page_run p evs)) (errorMessage st'))"
proof -
  have "\<exists>st'. form (page_run p evs) = Some st' \<and> form_wf (doc (page_run p evs)) st' \<and>
      form_inv (doc (page_run p evs), st')"
    if "form p = Some st" "form_wf (doc p) st" "form_inv (doc p, st)" "one_at_a_time p evs" for p st
    using that
  proof (induction evs arbitrary: p st)
    case (Cons e es)
    from Cons.prems(4) have g: "e \<noteq> SubmitForm \<or> pending st = []" and rest: "one_at_a_time (page_step p e) es"
      using Cons.prems(1) by auto
    from page_step_form_inv [OF Cons.prems(1-3) g] obtain st' where
      "form (page_step p e) = Some st'" "form_wf (doc (page_step p e)) st'" "form_inv (doc (page_step p e), st')"
      by blast
    with Cons.IH rest show ?case by simp
  qed auto
  from this [OF assms(1,2) _ assms(6)] assms(3-5) show ?thesis
    by (auto simp: form_inv_def)
qed


theorem page_messages_exclusive_witness:
  "\<exists>st'. form (page_run sample_page [SubmitForm, Settle 0 (Response 200)]) = Some st' \<and>
     \<not> (shown (doc (page_run sample_page [SubmitForm, Settle 0 (Response 200)])) (successMessage st') \<and>
        shown (doc (page_run sample_page [SubmitForm, Settle 0 (Response 200)])) (errorMessage st'))"
proof -
  let ?st = "the (form sample_page)"
  have f: "form sample_page = Some ?st" by (simp add: sample_page_form(1))
  have wf: "form_wf (doc sample_page) ?st" by (simp add: form_wf_def sample_page_form(2,3))
  have seq: "one_at_a_time sample_page [SubmitForm, Settle 0 (Response 200)]"
    by (simp add: sample_page_form(1) form_init_def)
  have s1: "\<not> shown (doc sample_page) (successMessage ?st)"
    unfolding sample_page_form(2) by (rule sample_page_form(5))
  have s2: "\<not> shown (doc sample_page) (errorMessage ?st)"
    unfolding sample_page_form(3) by (rule sample_page_form(6))
  from page_messages_exclusive [OF f wf sample_page_form(4) s1 s2 seq] show ?thesis .
qed

text \<open>
  C29. Non-interference for the navigation bar: after any interleaving of events, a
  language switcher's click and the navigation it starts included, the bar carries
  \<^verbatim>\<open>scrolled\<close> exactly when the last scroll event's offset is above 100; no other
  handler touches its classes.
\<close>

theorem page_navbar_last_scroll:
  assumes "navbar (nav p) = Some n" and "n < length (doc p)" and "scroll_offsets evs \<noteq> []"
  shows "scrolled_marker (doc (page_run p evs)) n \<longleftrightarrow> last (scroll_offsets evs) > 100"
  using page_run_marker [OF assms(1,2)] assms(3) by simp

theorem page_navbar_last_scroll_witness:
  "scrolled_marker (doc (page_run sample_page
      [Scroll 50, SubmitForm, Click 1, Scroll 400, Click 2, Settle 0 (Response 200)])) 0"
  using page_navbar_last_scroll [OF sample_page_facts(1),
      of "[Scroll 50, SubmitForm, Click 1, Scroll 400, Click 2, Settle 0 (Response 200)]"]
  by (simp add: sample_page_facts)

text \<open>
  C30. The reveal is one-way on the page: a revealed node stays revealed through any
  sequence of events, since no other handler writes its opacity or transform.
\<close>

theorem page_reveal_monotone:
  "n < length (doc p) \<Longrightarrow> revealed (doc p) n \<Longrightarrow> revealed (doc (page_run p evs)) n"
proof (induction evs arbitrary: p)
  case (Cons e es)
  have "n < length (doc (page_step p e))" using Cons.prems(1) page_step_static [of p e] by simp
  moreover have "revealed (doc (page_step p e)) n" using Cons.prems by (rule page_step_revealed)
  ultimately show ?case using Cons.IH by simp
qed simp

theorem page_reveal_monotone_witness:
  "revealed (doc (page_run (sample_page\<lparr>doc := [\<lparr>tag = ''div'', elem_id = None, class_list = [''service-card''],
      href_attr = None, offset_top = 0,
      el_style = \<lparr>opacity = ''1'', transform = ''translateY(0)'', transition = [], display = []\<rparr>\<rparr>]\<rparr>)
      [Scroll 300, Intersect [\<lparr>target = 0, isIntersecting = False, intersectionRatio = 0\<rparr>], SubmitForm])) 0"
  by (rule page_reveal_monotone) (simp_all add: revealed_def)

text \<open>
  C31. Anchor Scroller and Navbar together: a click on a same-page link requests a smooth
  scroll to 80 pixels above its target, and when the browser's scroll reaches that offset
  the bar carries \<^verbatim>\<open>scrolled\<close> exactly when the target lies more than 180 pixels down.
\<close>

theorem page_anchor_then_scroll:
  assumes "i \<in> set (links p)" and "i \<notin> set (switchers p)"
    and "href_attr (doc p ! i) = Some (''#'' @ s)" and "s \<noteq> []"
    and "getElementById (doc p) s = Some t"
    and "navbar (nav p) = Some n" and "n < length (doc p)"
  shows "scroll_req (page_step p (Click i)) = Some \<lparr>top = offset_top (doc p ! t) - 80, behavior = ''smooth''\<rparr> \<and>
    (scrolled_marker (doc (page_run p [Click i, Scroll (of_int (offset_top (doc p ! t) - 80))])) n \<longleftrightarrow>
       offset_top (doc p ! t) > 180)"
proof -
  have click: "page_step p (Click i) = p\<lparr>scroll_req := Some \<lparr>top = offset_top (doc p ! t) - 80, behavior = ''smooth''\<rparr>\<rparr>"
    using assms(1-5) by (simp add: page_step_def page_click_def nav_link_click_hash)
  let ?y = "real_of_int (offset_top (doc p ! t) - 80)"
  have run: "page_run p [Click i, Scroll ?y] =
      page_step (p\<lparr>scroll_req := Some \<lparr>top = offset_top (doc p ! t) - 80, behavior = ''smooth''\<rparr>\<rparr>) (Scroll ?y)"
    by (simp add: click)
  have "scrolled_marker (doc (page_run p [Click i, Scroll ?y])) n \<longleftrightarrow> ?y > 100"
    using assms(6,7) by (simp only: run) (simp add: page_step_def split_def scrolled_marker_scroll)
  also have "\<dots> \<longleftrightarrow> offset_top (doc p ! t) > 180" by linarith
  finally show ?thesis using click by simp
qed

theorem page_anchor_then_scroll_witness:
  "scroll_req (page_step sample_page (Click 2)) = Some \<lparr>top = 520, behavior = ''smooth''\<rparr> \<and>
   scrolled_marker (doc (page_run sample_page [Click 2, Scroll 520])) 0"
proof -
  have h: "href_attr (doc sample_page ! 2) = Some (''#'' @ ''services'')"
    and g: "getElementById (doc sample_page) ''services'' = Some 3"
    and o: "offset_top (doc sample_page ! 3) = 600"
    by (simp_all add: sample_page_def dom_content_loaded_def sample_doc_def getElementById_def
        fade_init_def querySelectorAll_def is_animated_def animated_classes_def class_contains_def
        split_def Let_def upt_rec set_style_def update_elem_def)
  from page_anchor_then_scroll [OF _ _ h _ g sample_page_facts(1)] o
  show ?thesis by (simp add: sample_page_facts)
qed

text \<open>
  C32. A language switcher whose \<^verbatim>\<open>href\<close> is the current page: when the location has a
  hash, the URL the handler builds differs from the current one only by its (equal)
  fragment, so the browser stays on the document and nothing changes; without a hash the
  click starts a reload of the same page.
\<close>

theorem switcher_current_page:
  assumes "i \<in> set (switchers p)" and "i \<notin> set (links p)"
    and "href_attr (doc p ! i) = Some (pathname (loc p))"
    and "hash_wf (hash (loc p))" and "\<forall>c \<in> set (pathname (loc p)). c \<noteq> CHR ''?'' \<and> c \<noteq> CHR ''#''"
  shows "page_step p (Click i) = (if hash (loc p) = [] then p\<lparr>navigated := Some (pathname (loc p))\<rparr> else p)"
proof (cases "hash (loc p) = []")
  case True
  have "CHR ''#'' \<notin> set (pathname (loc p))" using assms(5) by blast
  with True assms(1-3) show ?thesis
    by (simp add: page_step_def page_click_def switcher_click_def navigate_def Let_def js_truthy_def)
next
  case False
  then obtain f where h: "hash (loc p) = CHR ''#'' # f" using assms(4) by (cases "hash (loc p)") auto
  have tw: "takeWhile (\<lambda>c. c \<noteq> CHR ''#'') (pathname (loc p) @ hash (loc p)) = pathname (loc p)"
    using assms(5) h by (simp add: takeWhile_append takeWhile_eq_all_conv)
  have ul: "url_location (pathname (loc p) @ hash (loc p)) = loc p"
    using url_location_prefix_hash [OF assms(4,5)] by simp
  from False h tw ul assms(1-3) show ?thesis
    by (simp add: page_step_def page_click_def switcher_click_def navigate_def Let_def js_truthy_def)
qed

theorem switcher_current_page_witness:
  "page_step (sample_page\<lparr>loc := \<lparr>pathname = ''/he/'', hash = ''#x''\<rparr>,
      doc := (doc sample_page)[1 := (doc sample_page ! 1)\<lparr>href_attr := Some ''/he/''\<rparr>]\<rparr>) (Click 1) =
   sample_page\<lparr>loc := \<lparr>pathname = ''/he/'', hash = ''#x''\<rparr>,
      doc := (doc sample_page)[1 := (doc sample_page ! 1)\<lparr>href_attr := Some ''/he/''\<rparr>]\<rparr>"
  using switcher_current_page [of 1 "sample_page\<lparr>loc := \<lparr>pathname = ''/he/'', hash = ''#x''\<rparr>,
      doc := (doc sample_page)[1 := (doc sample_page ! 1)\<lparr>href_attr := Some ''/he/''\<rparr>]\<rparr>"]
  by (simp add: sample_page_facts)

end
