(* ===== verification/Config.thy ===== *)
theory Config
  imports Prelude
begin

text \<open>
  The bundler configuration \<^verbatim>\<open>src/vite.config.js\<close> (lines 4--23) as a record value,
  and the URL path under which the build serves an HTML entry. Paths are written
  relative to the project directory (\<^verbatim>\<open>resolve(__dirname, p)\<close> is \<open>p\<close>). The serving rule
  is Vite's, not code of the repository: an entry below \<^verbatim>\<open>root\<close> is served at \<^verbatim>\<open>base\<close>
  followed by its path below \<^verbatim>\<open>root\<close>, and an \<^verbatim>\<open>index.html\<close> at its directory's URL.
\<close>

section \<open>Definitions\<close>

record build_config =
  root :: string
  base :: string
  publicDir :: string
  outDir :: string
  emptyOutDir :: bool
  minify :: string
  inputs :: "(string \<times> string) list"
  server_port :: nat
  server_open :: bool

definition vite_config :: build_config where
  "vite_config =
     \<lparr>root = ''src'', base = ''/'', publicDir = ''public'', outDir = ''../dist'', emptyOutDir = True,
      minify = ''esbuild'',
      inputs = [(''main'', ''src/index.html''), (''hebrew'', ''src/he/index.html'')],
      server_port = 3000, server_open = True\<rparr>"

text \<open>\<^verbatim>\<open>s.endsWith(p)\<close>.\<close>

definition ends_with :: "string \<Rightarrow> string \<Rightarrow> bool" where
  "ends_with s p = starts_with (rev s) (rev p)"

definition served_path :: "build_config \<Rightarrow> string \<Rightarrow> string option" where
  "served_path cfg file =
     (if starts_with file (root cfg @ ''/'') then
        let rel = drop (length (root cfg) + 1) file;
            dir = (if ends_with rel ''index.html'' then take (length rel - length ''index.html'') rel else rel)
        in Some (base cfg @ dir)
      else None)"

section \<open>Lemmas\<close>

lemma vite_served_paths:
  "map (\<lambda>(n, f). (n, served_path vite_config f)) (inputs vite_config) =
     [(''main'', Some ''/''), (''hebrew'', Some ''/he/'')]"
  by (simp add: vite_config_def served_path_def ends_with_def)

end
