(* ===== verification/Spec2Isabelle.thy ===== *)
theory Spec2Isabelle
  imports Page Config
begin

text \<open>
  \<^bold>\<open>A verification development of the page script of abramov.co.il.\<close>

  The repository is a bilingual (English and Hebrew) marketing site. Its behaviour is
  one script, \<^verbatim>\<open>src/src/js/main.js\<close>, that wires five event handlers into the page
  when \<^verbatim>\<open>DOMContentLoaded\<close> fires, and a bundler configuration,
  \<^verbatim>\<open>src/vite.config.js\<close>, that builds the two entry pages the script runs on. The
  handlers share nothing but the document and the window's location; the development
  models that shared state explicitly (the document as a store of nodes whose identity
  is their position) so that the aliasing between handlers can be stated and the
  handlers' independence proved.

  \<^bold>\<open>Theories and the code they model.\<close>
  \<^item> \<open>Prelude\<close>: JavaScript values the script relies on (\<^verbatim>\<open>startsWith\<close>,
    \<^verbatim>\<open>substring(1)\<close>, truthiness of strings), the \<^verbatim>\<open>TypeError\<close> of its exception paths
    (results are \<open>js_error + 'a\<close>), and the search by predicate behind every
    single-node DOM query.
  \<^item> \<open>Dom\<close>: the document as a list of element records in tree order, the queries
    (\<^verbatim>\<open>getElementById\<close>, \<^verbatim>\<open>querySelector\<close>, \<^verbatim>\<open>querySelectorAll\<close>), \<^verbatim>\<open>classList\<close> and
    the inline style; the script's environment, modelled from the DOM standard.
  \<^item> \<open>Language\<close>: \<^verbatim>\<open>getCurrentLanguage\<close> (main.js 5--8), \<^verbatim>\<open>switchLanguage\<close> (10--27),
    the \<^verbatim>\<open>.language-switcher\<close> click handler (34--47) as \<open>switcher_click\<close>; a navigation
    is the URL the handler returns, read back by the browser's \<open>url_location\<close>.
  \<^item> \<open>Anchor\<close>: the selection of same-page links (51--57, \<open>nav_links\<close>) and their click
    handler (58--72, \<open>nav_link_click\<close>), returning whether the default was prevented and
    the \<^verbatim>\<open>scrollTo\<close> request.
  \<^item> \<open>Form\<close>: the contact form (76--118). The async submit handler is split at its
    \<^verbatim>\<open>await\<close>: \<open>form_submit\<close> runs up to the \<^verbatim>\<open>fetch\<close> and records the request as
    pending, \<open>form_settle\<close> runs the rest when that request settles (a response or a
    rejection). \<open>form_step\<close> is the inductive step relation allowing any interleaving of
    submissions and settlements; \<open>seq_step\<close> allows a submission only when nothing is
    in flight.
  \<^item> \<open>Fade\<close>: the observer options and callback (121--134, \<open>observer_callback\<close>) and the
    set-up that hides every animated element (136--142, \<open>fade_init\<close>). The browser's
    intersection computation is not modelled: its entries are the callback's input.
  \<^item> \<open>Navbar\<close>: the scroll listener (145--158, \<open>navbar_scroll\<close>) with its captured
    \<^verbatim>\<open>navbar\<close> and \<^verbatim>\<open>lastScroll\<close> as \<open>navbar_state\<close>; \<open>navbar_run\<close> folds it over scroll events.
  \<^item> \<open>Page\<close>: the \<^verbatim>\<open>DOMContentLoaded\<close> listener (30--159, \<open>dom_content_loaded\<close>) and a
    deterministic page step \<open>page_step\<close> over browser events (clicks, submissions,
    settlements, scrolls, intersection batches); \<open>page_run\<close> runs any sequence of them.
    An assignment to \<^verbatim>\<open>window.location.href\<close> goes through the browser's \<open>navigate\<close>: a
    URL differing from the current one only by a fragment updates the location, any other
    starts a navigation that is recorded; the document keeps receiving events until the
    browser replaces it, which is the end of an event sequence.
  \<^item> \<open>Config\<close>: \<^verbatim>\<open>src/vite.config.js\<close> as a record value \<open>vite_config\<close>, and
    \<open>served_path\<close>, the URL path under which the build serves an entry (Vite's rule).

  \<^bold>\<open>What the lemmas show\<close> (claim ids as in the manifest).
  Form, C1--C6: the request a submission sends; the success and failure paths of a
  settlement, errors included; that with one submission at a time the two messages are
  never shown together (an invariant of \<open>seq_step\<close>, by rule induction), while on any page
  two overlapping submissions answered in reverse order are a run of \<open>form_step\<close> that
  shows both; and the path without a success element. Language, C7--C12: the
  classification by path prefix, the no-op of \<open>switchLanguage\<close>, the round trip through
  the URL to a page of the target language with the same hash, the switcher's handler and
  its \<^verbatim>\<open>TypeError\<close>, and that the router keeps the hash but not the page. Anchor,
  C13--C16; Fade, C17--C21; Navbar, C22--C25: each handler's result on every branch,
  idempotence, monotonicity and frame lemmas. Page, C26--C32: the set-up; that the form on
  the page refines the form component's step relation; the message exclusion, the
  navigation bar's state and the reveal preserved under any interleaving of events; the
  Anchor Scroller and Navbar composed; and a switcher to the current page, which reloads it
  unless the location has a hash. Root, C33: every URL the router navigates to is an entry
  page the build produces.

  \<^bold>\<open>Bounds and fuel.\<close> Every loop of the script is a \<^verbatim>\<open>forEach\<close> over a finite node
  list or an event sequence; each is structural recursion (\<open>fold\<close>, \<open>filter\<close>, \<open>fun\<close>)
  and needs no fuel. Numbers keep their JavaScript meaning where a claim depends on
  them: \<^verbatim>\<open>pageYOffset\<close> is a real, \<^verbatim>\<open>offsetTop\<close> an integer, status codes integers.

  \<^bold>\<open>Not modelled.\<close> The browser's default actions (following an unprevented link,
  the smooth-scroll animation and clamping of offsets, the scroll to a fragment), event
  bubbling (a click runs the listeners of the clicked node only), a query in the current
  URL, relative and percent-encoded
  URLs, the form controls' behaviour beyond their reset values, \<^verbatim>\<open>FormData\<close>
  encoding, console output beyond a log of entries, the intersection geometry, and what
  Vite does with the configuration beyond serving the two entries.
\<close>

section \<open>Properties across components\<close>

text \<open>
  C33. \<^verbatim>\<open>switchLanguage\<close> only navigates to pages the build produces: the URL it
  navigates to is, as the browser reads it, the served path of an entry of the
  configuration, carrying the current hash.
\<close>

theorem router_targets_built_pages:
  assumes "hash_wf (hash l)" and "switchLanguage l targetLang = Some url"
  shows "\<exists>(n, f) \<in> set (inputs vite_config).
           served_path vite_config f = Some (pathname (url_location url)) \<and>
           hash (url_location url) = hash l"
proof -
  have he: "url_location (''/he/'' @ hash l) = \<lparr>pathname = ''/he/'', hash = hash l\<rparr>"
    using assms(1) by (rule url_location_prefix_hash) simp
  have en: "url_location (''/'' @ hash l) = \<lparr>pathname = ''/'', hash = hash l\<rparr>"
    using assms(1) by (rule url_location_prefix_hash) simp
  have paths: "served_path vite_config ''src/index.html'' = Some ''/''"
    "served_path vite_config ''src/he/index.html'' = Some ''/he/''"
    using vite_served_paths by (simp_all add: vite_config_def)
  from assms(2) he en paths show ?thesis
    by (auto simp: switchLanguage_def Let_def vite_config_def split: if_splits)
qed

theorem router_targets_built_pages_witness:
  "\<exists>(n, f) \<in> set (inputs vite_config).
     served_path vite_config f = Some (pathname (url_location ''/he/#contact''))
     \<and> hash (url_location ''/he/#contact'') = ''#contact''"
proof -
  have "switchLanguage \<lparr>pathname = ''/about'', hash = ''#contact''\<rparr> ''he'' = Some ''/he/#contact''"
    by (simp add: switchLanguage_def getCurrentLanguage_def)
  from router_targets_built_pages [OF _ this] show ?thesis by simp
qed

end
